theory Spec2Isabelle
  imports Complex_Main
begin

section \<open>Data model (types.ts)\<close>

text \<open>
  JavaScript numbers that carry geographic quantities (degrees, metres) are modelled as
  mathematical reals; timestamps (\<^verbatim>\<open>Date.now()\<close>, epoch milliseconds) are natural numbers.
  A string is the list of its UTF-16 code units, and a character of the model is a code
  unit below 256: \<open>CHR 0xA0\<close> is the no-break space U+00A0. Strings with a code unit from 256
  on are outside the type.
\<close>

record coordinate =
  lat :: real
  lng :: real

datatype PlaceCategory = Generic | Work | Home | Shop | Food | Health | Travel

text \<open>\<^verbatim>\<open>Place.id\<close> is called \<open>place_id\<close> here, since \<open>id\<close> is the identity function of HOL.
  \<^verbatim>\<open>Place.notes\<close> is \<open>place_notes\<close> (\<open>notes\<close> is a keyword). The optional fields \<^verbatim>\<open>notes?\<close> and \<^verbatim>\<open>listId?\<close> are options: \<open>None\<close> is an absent field.\<close>

record place =
  place_id :: string
  name :: string
  location :: coordinate
  category :: PlaceCategory
  radius :: real
  place_notes :: "string option"
  isCompleted :: bool
  createdAt :: nat
  listId :: "string option"

record SearchResult =
  sr_place_id :: nat
  sr_lat :: string
  sr_lon :: string
  display_name :: string
  sr_type :: string

record alert =
  placeId :: string
  message :: string
  timestamp :: nat

section \<open>The controller's state (App.tsx, the useState cells of App)\<close>

record app_state =
  places :: "place list"
  userLocation :: "coordinate option"
  isLoadingLocation :: bool
  searchResults :: "SearchResult list"
  isSearching :: bool
  activeAlerts :: "alert list"
  alertedPlaceIds :: "string set"
  snoozedPlaceIds :: "string \<rightharpoonup> nat"
  selectedPlaceId :: "string option"
  editingNoteId :: "string option"
  editingNameId :: "string option"
  tempNote :: string
  tempName :: string
  draftLocation :: "coordinate option"
  draftName :: string
  draftNote :: string

definition INITIAL_TASKS :: "place list" where
  "INITIAL_TASKS = []"

definition initial_state :: app_state where
  "initial_state =
     \<lparr>places = INITIAL_TASKS, userLocation = None, isLoadingLocation = True,
      searchResults = [], isSearching = False, activeAlerts = [],
      alertedPlaceIds = {}, snoozedPlaceIds = Map.empty, selectedPlaceId = None,
      editingNoteId = None, editingNameId = None, tempNote = [], tempName = [],
      draftLocation = None, draftName = [], draftNote = []\<rparr>"

definition PROXIMITY_THRESHOLD_METERS :: real where
  "PROXIMITY_THRESHOLD_METERS = 200"

section \<open>Place mutation and alert response handlers (App.tsx)\<close>

text \<open>Each handler queues functional updates on independent state cells; in the model the
  handler takes the state of the render it was created in and returns the state after
  all of its updates.\<close>

definition handlePlaceMove :: "app_state \<Rightarrow> string \<Rightarrow> coordinate \<Rightarrow> app_state" where
  "handlePlaceMove st i newLocation =
     st\<lparr>places := map (\<lambda>p. if place_id p = i then p\<lparr>location := newLocation\<rparr> else p) (places st),
        alertedPlaceIds := alertedPlaceIds st - {i},
        snoozedPlaceIds := (snoozedPlaceIds st)(i := None),
        activeAlerts := filter (\<lambda>a. placeId a \<noteq> i) (activeAlerts st)\<rparr>"

definition handleToggleTask :: "app_state \<Rightarrow> string \<Rightarrow> app_state" where
  "handleToggleTask st i =
     st\<lparr>places := map (\<lambda>p. if place_id p = i then p\<lparr>isCompleted := \<not> isCompleted p\<rparr> else p) (places st)\<rparr>"

definition handleDeleteTask :: "app_state \<Rightarrow> string \<Rightarrow> app_state" where
  "handleDeleteTask st i =
     (let st1 = st\<lparr>places := filter (\<lambda>p. place_id p \<noteq> i) (places st)\<rparr>
      in if selectedPlaceId st = Some i then st1\<lparr>selectedPlaceId := None\<rparr> else st1)"

definition handleDismissAlert :: "app_state \<Rightarrow> string \<Rightarrow> app_state" where
  "handleDismissAlert st i =
     st\<lparr>activeAlerts := filter (\<lambda>a. placeId a \<noteq> i) (activeAlerts st)\<rparr>"

definition SNOOZE_DURATION :: nat where
  "SNOOZE_DURATION = 5 * 60 * 1000"

text \<open>\<open>now\<close> is the value \<^verbatim>\<open>Date.now()\<close> returns inside the handler.\<close>

definition handleSnoozeAlert :: "app_state \<Rightarrow> string \<Rightarrow> nat \<Rightarrow> app_state" where
  "handleSnoozeAlert st i now =
     st\<lparr>snoozedPlaceIds := (snoozedPlaceIds st)(i \<mapsto> now + SNOOZE_DURATION),
        activeAlerts := filter (\<lambda>a. placeId a \<noteq> i) (activeAlerts st),
        alertedPlaceIds := alertedPlaceIds st - {i}\<rparr>"

section \<open>Great-circle distance (services/locationService.ts)\<close>

text \<open>
  The distance is modelled over the reals. The code computes in IEEE doubles: it agrees
  with the model up to rounding, and it returns NaN where rounding makes \<open>a\<close> exceed 1
  (pairs of points that are almost antipodal); NaN compares false with every radius, so
  the proximity check then takes the place as outside. Exact equalities between doubles
  are not properties of this model.

  \<^verbatim>\<open>Math.atan2(y, x)\<close> on reals: the angle of the point \<open>(x, y)\<close> in \<open>(-\<pi>, \<pi>]\<close>.
\<close>

definition atan2 :: "real \<Rightarrow> real \<Rightarrow> real" where
  "atan2 y x =
     (if 0 < x then arctan (y / x)
      else if x < 0 then (if 0 \<le> y then arctan (y / x) + pi else arctan (y / x) - pi)
      else if 0 < y then pi / 2
      else if y < 0 then - (pi / 2)
      else 0)"

definition calculateDistance :: "coordinate \<Rightarrow> coordinate \<Rightarrow> real" where
  "calculateDistance coord1 coord2 =
     (let R = 6371000;
          lat1 = (lat coord1 * pi) / 180;
          lat2 = (lat coord2 * pi) / 180;
          dLat = ((lat coord2 - lat coord1) * pi) / 180;
          dLng = ((lng coord2 - lng coord1) * pi) / 180;
          a = sin (dLat / 2) * sin (dLat / 2) +
              cos lat1 * cos lat2 * sin (dLng / 2) * sin (dLng / 2);
          c = 2 * atan2 (sqrt a) (sqrt (1 - a))
      in R * c)"

section \<open>The proximity check (App.tsx, the second useEffect)\<close>

text \<open>
  One run of the effect. The callback of \<^verbatim>\<open>places.forEach\<close> reads the cells of the render
  that scheduled the effect (\<open>snap\<close>: \<^verbatim>\<open>snoozedPlaceIds\<close>, \<^verbatim>\<open>alertedPlaceIds\<close>,
  \<^verbatim>\<open>activeAlerts\<close>) and queues functional updates \<^verbatim>\<open>prev => ...\<close>, which apply in
  order to the state being built (\<open>acc\<close>).

  \<^verbatim>\<open>snoozeExpiry && snoozeExpiry > now\<close>: an absent entry and the number 0 are falsy.
\<close>

definition isSnoozed :: "(string \<rightharpoonup> nat) \<Rightarrow> string \<Rightarrow> nat \<Rightarrow> bool" where
  "isSnoozed sn i now =
     (case sn i of None \<Rightarrow> False | Some snoozeExpiry \<Rightarrow> snoozeExpiry \<noteq> 0 \<and> snoozeExpiry > now)"

definition isAlertActive :: "alert list \<Rightarrow> string \<Rightarrow> bool" where
  "isAlertActive as i = list_ex (\<lambda>a. placeId a = i) as"

definition mkAlert :: "place \<Rightarrow> nat \<Rightarrow> alert" where
  "mkAlert p now =
     \<lparr>placeId = place_id p, message = ''You are near '' @ name p @ ''!'', timestamp = now\<rparr>"

definition checkPlace :: "app_state \<Rightarrow> coordinate \<Rightarrow> nat \<Rightarrow> app_state \<Rightarrow> place \<Rightarrow> app_state" where
  "checkPlace snap u now acc p =
     (if isCompleted p then acc
      else
        let distance = calculateDistance u (location p);
            isInside = (distance \<le> radius p)
        in if isInside then
             (if isSnoozed (snoozedPlaceIds snap) (place_id p) now then acc
              else
                let hasAlertedThisSession = (place_id p \<in> alertedPlaceIds snap);
                    alertActive = isAlertActive (activeAlerts snap) (place_id p)
                in if \<not> hasAlertedThisSession \<and> \<not> alertActive then
                     acc\<lparr>activeAlerts := activeAlerts acc @ [mkAlert p now],
                         alertedPlaceIds := insert (place_id p) (alertedPlaceIds acc)\<rparr>
                   else acc)
           else
             (if place_id p \<in> alertedPlaceIds snap then
                acc\<lparr>alertedPlaceIds := alertedPlaceIds acc - {place_id p}\<rparr>
              else acc))"

definition proximityCheck :: "app_state \<Rightarrow> nat \<Rightarrow> app_state" where
  "proximityCheck st now =
     (case userLocation st of
        None \<Rightarrow> st
      | Some u \<Rightarrow> foldl (checkPlace st u now) st (places st))"

text \<open>A position reported by the geolocation watcher, followed by the run of the effect
  that the new \<^verbatim>\<open>userLocation\<close> schedules, at clock reading \<open>now\<close>.\<close>

definition positionUpdate :: "app_state \<Rightarrow> coordinate \<Rightarrow> app_state" where
  "positionUpdate st u = st\<lparr>userLocation := Some u, isLoadingLocation := False\<rparr>"

definition evaluateAt :: "app_state \<Rightarrow> coordinate \<times> nat \<Rightarrow> app_state" where
  "evaluateAt st un = proximityCheck (positionUpdate st (fst un)) (snd un)"

section \<open>Strings\<close>

text \<open>The white space of \<^verbatim>\<open>String.prototype.trim\<close> and of the regular expression class
  \<^verbatim>\<open>\s\<close> is ECMAScript's WhiteSpace and LineTerminator: U+0009, U+000B, U+000C, U+0020,
  U+00A0, U+FEFF and the other space separators (U+1680, U+2000 to U+200A, U+202F, U+205F,
  U+3000), U+000A, U+000D, U+2028, U+2029. Below 256 these are tab, line feed, vertical
  tab, form feed, carriage return, space and the no-break space.\<close>

definition isWhiteSpace :: "char \<Rightarrow> bool" where
  "isWhiteSpace c =
     (c \<in> {CHR 0x09, CHR 0x0A, CHR 0x0B, CHR 0x0C, CHR 0x0D, CHR '' '', CHR 0xA0})"

definition trim :: "string \<Rightarrow> string" where
  "trim s = rev (dropWhile isWhiteSpace (rev (dropWhile isWhiteSpace s)))"

text \<open>\<^verbatim>\<open>a || b\<close> on strings: the empty string is falsy.\<close>

definition orElse :: "string \<Rightarrow> string \<Rightarrow> string" where
  "orElse a b = (if a \<noteq> [] then a else b)"

text \<open>\<^verbatim>\<open>Number.prototype.toString\<close> on a non-negative integer: its decimal digits.\<close>

definition digitChar :: "nat \<Rightarrow> char" where
  "digitChar d = ''0123456789'' ! d"

function toString :: "nat \<Rightarrow> string" where
  "toString n = (if n < 10 then [digitChar n] else toString (n div 10) @ [digitChar (n mod 10)])"
  by pat_completeness auto
termination
  by (relation "measure (\<lambda>n. n)") auto

declare toString.simps [simp del]

section \<open>Place creation, AI enrichment and drafts (App.tsx, services/geminiService.ts)\<close>

record enhancement =
  enh_category :: PlaceCategory
  suggestedNote :: string

text \<open>What the call to the model does: it throws (network or service failure), it answers
  without text, its text is not JSON (\<^verbatim>\<open>JSON.parse\<close> throws inside the \<^verbatim>\<open>try\<close>), or its
  text parses to an object of the response schema.\<close>

datatype ai_outcome = CallFails | NoText | ParseFails | Parsed enhancement

definition suggestCategoryAndNotes :: "ai_outcome \<Rightarrow> enhancement option" where
  "suggestCategoryAndNotes r =
     (case r of
        CallFails \<Rightarrow> Some \<lparr>enh_category = Generic, suggestedNote = []\<rparr>
      | NoText \<Rightarrow> None
      | ParseFails \<Rightarrow> Some \<lparr>enh_category = Generic, suggestedNote = []\<rparr>
      | Parsed e \<Rightarrow> Some e)"

text \<open>\<^verbatim>\<open>userNotes || ""\<close>, with \<open>None\<close> for an argument that is not passed.\<close>

definition initialNoteOf :: "string option \<Rightarrow> string" where
  "initialNoteOf userNotes = orElse (case userNotes of None \<Rightarrow> [] | Some n \<Rightarrow> n) []"

text \<open>\<^verbatim>\<open>handleAddPlace\<close>: \<open>tId\<close> and \<open>tCreated\<close> are the two readings of \<^verbatim>\<open>Date.now()\<close>
  (the first is read only when no identifier is given). The synchronous part returns the
  identifier and the state with the new place in front.\<close>

definition handleAddPlace ::
  "app_state \<Rightarrow> coordinate \<Rightarrow> string \<Rightarrow> string option \<Rightarrow> string option \<Rightarrow> nat \<Rightarrow> nat
     \<Rightarrow> string \<times> app_state" where
  "handleAddPlace st loc nm userNotes givenId tId tCreated =
     (let i = orElse (case givenId of None \<Rightarrow> [] | Some g \<Rightarrow> g) (toString tId);
          initialNote = initialNoteOf userNotes;
          newPlace = \<lparr>place_id = i, name = nm, location = loc, category = Generic,
                      radius = PROXIMITY_THRESHOLD_METERS, place_notes = Some initialNote,
                      isCompleted = False, createdAt = tCreated, listId = None\<rparr>
      in (i, st\<lparr>places := newPlace # places st\<rparr>))"

text \<open>The \<^verbatim>\<open>.then\<close> callback of the background enrichment, run (when an API key is
  configured) on the state current at the time the suggestion arrives; \<open>i\<close> and
  \<open>initialNote\<close> are the values captured by \<^verbatim>\<open>handleAddPlace\<close>.\<close>

definition applyEnhancement :: "app_state \<Rightarrow> string \<Rightarrow> string \<Rightarrow> enhancement option \<Rightarrow> app_state" where
  "applyEnhancement st i initialNote enh =
     (case enh of
        None \<Rightarrow> st
      | Some e \<Rightarrow>
          st\<lparr>places :=
               map (\<lambda>p. if place_id p = i
                         then p\<lparr>category := enh_category e,
                                place_notes := Some (if initialNote \<noteq> [] then initialNote
                                                     else suggestedNote e)\<rparr>
                         else p) (places st)\<rparr>)"

definition enrich :: "bool \<Rightarrow> ai_outcome \<Rightarrow> app_state \<Rightarrow> string \<Rightarrow> string option \<Rightarrow> app_state" where
  "enrich apiKey r st i userNotes =
     (if apiKey then applyEnhancement st i (initialNoteOf userNotes) (suggestCategoryAndNotes r)
      else st)"

text \<open>\<^verbatim>\<open>handleSearchResultClick\<close>: \<open>parsed\<close> is the coordinate that \<^verbatim>\<open>parseFloat\<close> reads from
  the result, \<open>firstSegment\<close> is \<^verbatim>\<open>result.display_name.split(',')[0]\<close>.\<close>

definition handleSearchResultClick ::
  "app_state \<Rightarrow> coordinate \<Rightarrow> string \<Rightarrow> nat \<Rightarrow> nat \<Rightarrow> app_state" where
  "handleSearchResultClick st parsed firstSegment tId tCreated =
     (let newId = toString tId;
          (i, st1) = handleAddPlace st parsed firstSegment None (Some newId) tId tCreated
      in st1\<lparr>searchResults := [], selectedPlaceId := Some newId\<rparr>)"

definition handleMapClick :: "app_state \<Rightarrow> coordinate \<Rightarrow> app_state" where
  "handleMapClick st coord =
     st\<lparr>draftLocation := Some coord, draftName := [], draftNote := [], selectedPlaceId := None\<rparr>"

definition clearDraft :: "app_state \<Rightarrow> app_state" where
  "clearDraft st = st\<lparr>draftLocation := None, draftName := [], draftNote := []\<rparr>"

definition handleConfirmDraft :: "app_state \<Rightarrow> nat \<Rightarrow> nat \<Rightarrow> app_state" where
  "handleConfirmDraft st tId tCreated =
     (case draftLocation st of
        None \<Rightarrow> st
      | Some loc \<Rightarrow>
          let nm = orElse (trim (draftName st)) ''New Place'';
              note = trim (draftNote st);
              st1 = clearDraft st;
              (i, st2) = handleAddPlace st1 loc nm (Some note) None tId tCreated
          in st2\<lparr>selectedPlaceId := Some i\<rparr>)"

definition handleCancelDraft :: "app_state \<Rightarrow> app_state" where
  "handleCancelDraft st = clearDraft st"

definition handleDraftMove :: "app_state \<Rightarrow> coordinate \<Rightarrow> app_state" where
  "handleDraftMove st newLocation = st\<lparr>draftLocation := Some newLocation\<rparr>"

text \<open>\<^verbatim>\<open>handleUpdatePlace\<close> merges a partial place; its callers pass a name, notes or a
  radius.\<close>

record updates =
  upd_name :: "string option"
  upd_notes :: "string option"
  upd_radius :: "real option"

definition mergeUpdates :: "place \<Rightarrow> updates \<Rightarrow> place" where
  "mergeUpdates p us =
     p\<lparr>name := (case upd_name us of None \<Rightarrow> name p | Some n \<Rightarrow> n),
       place_notes := (case upd_notes us of None \<Rightarrow> place_notes p | Some n \<Rightarrow> Some n),
       radius := (case upd_radius us of None \<Rightarrow> radius p | Some r \<Rightarrow> r)\<rparr>"

definition handleUpdatePlace :: "app_state \<Rightarrow> string \<Rightarrow> updates \<Rightarrow> app_state" where
  "handleUpdatePlace st i us =
     st\<lparr>places := map (\<lambda>p. if place_id p = i then mergeUpdates p us else p) (places st)\<rparr>"

section \<open>Place search (services/locationService.ts, the Photon variant of searchPlaces)\<close>

text \<open>
  The query is cleaned by
  \<^verbatim>\<open>query.replace(/(\s+|^)(near me|nearby|closest|near)(\s+|$)/gi, ' ').trim()\<close>.
  The model follows the matcher of the regular expression. A match at a position is:
  a maximal run of white space (a shorter run leaves a white space character where the
  phrase has to start), or nothing at position 0; then the first of the four phrases, in
  the order written, that matches there ignoring case (only the letters A to Z match a
  letter of a phrase: a code unit from 128 on is never canonicalised to an ASCII letter)
  and is followed by a maximal run
  of white space or by the end of the string. The global replace scans from left to right:
  where there is a match it emits one space and goes on after the match, otherwise it
  keeps the character and tries the next position.
\<close>

definition toLower :: "char \<Rightarrow> char" where
  "toLower c =
     (case map_of (zip ''ABCDEFGHIJKLMNOPQRSTUVWXYZ'' ''abcdefghijklmnopqrstuvwxyz'') c of
        None \<Rightarrow> c | Some l \<Rightarrow> l)"

definition fillers :: "string list" where
  "fillers = [''near me'', ''nearby'', ''closest'', ''near'']"

definition matchesAt :: "string \<Rightarrow> string \<Rightarrow> bool" where
  "matchesAt p s = (length p \<le> length s \<and> map toLower (take (length p) s) = p)"

definition matchEnd :: "string \<Rightarrow> string option" where
  "matchEnd r =
     (case r of
        [] \<Rightarrow> Some []
      | c # cs \<Rightarrow> if isWhiteSpace c then Some (dropWhile isWhiteSpace r) else None)"

fun matchPhrases :: "string list \<Rightarrow> string \<Rightarrow> string option" where
  "matchPhrases [] s = None"
| "matchPhrases (p # ps) s =
     (if matchesAt p s then
        (case matchEnd (drop (length p) s) of
           Some r \<Rightarrow> Some r
         | None \<Rightarrow> matchPhrases ps s)
      else matchPhrases ps s)"

definition matchAt :: "bool \<Rightarrow> string \<Rightarrow> string option" where
  "matchAt atStart s =
     (case s of
        [] \<Rightarrow> None
      | c # cs \<Rightarrow>
          if isWhiteSpace c then matchPhrases fillers (dropWhile isWhiteSpace s)
          else if atStart then matchPhrases fillers s
          else None)"

lemma matchEnd_length: "matchEnd r = Some t \<Longrightarrow> length t \<le> length r"
  by (cases r) (auto simp: matchEnd_def split: if_splits intro: le_SucI length_dropWhile_le)

lemma matchPhrases_length:
  "matchPhrases ps s = Some t \<Longrightarrow> [] \<notin> set ps \<Longrightarrow> length t < length s"
proof (induction ps)
  case Nil
  then show ?case by simp
next
  case (Cons p ps)
  show ?case
  proof (cases "matchesAt p s \<and> matchEnd (drop (length p) s) \<noteq> None")
    case True
    then obtain r where r: "matchEnd (drop (length p) s) = Some r" by auto
    with True Cons.prems have "t = r" by simp
    moreover from matchEnd_length[OF r] have "length r \<le> length s - length p" by simp
    moreover from True Cons.prems have "0 < length p" "length p \<le> length s"
      by (auto simp: matchesAt_def)
    ultimately show ?thesis by (cases p) auto
  next
    case False
    with Cons.prems have "matchPhrases ps s = Some t" by (auto split: option.splits if_splits)
    with Cons show ?thesis by simp
  qed
qed

lemma matchAt_length: "matchAt atStart s = Some t \<Longrightarrow> length t < length s"
proof -
  assume a: "matchAt atStart s = Some t"
  have f: "[] \<notin> set fillers" by (simp add: fillers_def)
  from a obtain c cs where s: "s = c # cs" by (cases s) (auto simp: matchAt_def)
  show ?thesis
  proof (cases "isWhiteSpace c")
    case True
    with a s have "matchPhrases fillers (dropWhile isWhiteSpace s) = Some t"
      by (simp add: matchAt_def)
    from matchPhrases_length[OF this f] have "length t < length (dropWhile isWhiteSpace s)" .
    also have "\<dots> \<le> length s" by (rule length_dropWhile_le)
    finally show ?thesis .
  next
    case False
    with a s have "matchPhrases fillers s = Some t"
      by (auto simp: matchAt_def split: if_splits)
    from matchPhrases_length[OF this f] show ?thesis .
  qed
qed

function replaceFillers :: "bool \<Rightarrow> string \<Rightarrow> string" where
  "replaceFillers atStart [] = []"
| "replaceFillers atStart (c # cs) =
     (case matchAt atStart (c # cs) of
        Some r \<Rightarrow> CHR '' '' # replaceFillers False r
      | None \<Rightarrow> c # replaceFillers False cs)"
  by pat_completeness auto
termination
  by (relation "measure (\<lambda>(atStart, s). length s)") (auto dest: matchAt_length)

definition cleanQuery :: "string \<Rightarrow> string" where
  "cleanQuery query = trim (replaceFillers True query)"

text \<open>
  The environment of the call. \<open>fetch\<close> is what the request to the given URL does, the
  cancellation signal included: the promise rejects with a value (a network failure
  rejects with a \<^verbatim>\<open>TypeError\<close>, a cancellation with the signal's abort reason, which is
  an \<^verbatim>\<open>AbortError\<close> unless the caller gave another one), or a response arrives, successful
  or not, whose body parses to a list of features or throws.

  A thrown value is \<^verbatim>\<open>null\<close>, \<^verbatim>\<open>undefined\<close>, or a value with properties, of which
  only \<^verbatim>\<open>name\<close> is read: \<open>JsObject None\<close> has no such property. Reading \<^verbatim>\<open>error.name\<close>
  of \<^verbatim>\<open>null\<close> or \<^verbatim>\<open>undefined\<close> throws a \<^verbatim>\<open>TypeError\<close>.

  \<open>toSearchResult\<close> is the mapping of one feature (lines 118-142), which no property
  below depends on; it may throw.
\<close>

datatype js_value = JsNull | JsUndefined | JsObject "string option"

definition errorNamed :: "string \<Rightarrow> js_value" where
  "errorNamed nm = JsObject (Some nm)"

datatype 'f fetch_outcome = Rejects js_value | Responds bool "js_value + 'f list"

record 'f search_env =
  encodeURIComponent :: "string \<Rightarrow> string"
  numberToString :: "real \<Rightarrow> string"
  fetch :: "string \<Rightarrow> 'f fetch_outcome"
  toSearchResult :: "'f \<Rightarrow> js_value + SearchResult"

datatype log_entry = LogAborted | LogError js_value

text \<open>What a call of \<^verbatim>\<open>searchPlaces\<close> does: the promise it returns resolves to a result
  list (\<open>Inr\<close>) or rejects with a value (\<open>Inl\<close>); the requests it has issued; what it has
  written to the console.\<close>

record search_run =
  outcome :: "js_value + SearchResult list"
  requests :: "string list"
  logged :: "log_entry list"

definition searchUrl :: "'f search_env \<Rightarrow> string \<Rightarrow> coordinate option \<Rightarrow> string" where
  "searchUrl env cleanedQuery userLoc =
     ''https://photon.komoot.io/api/?q='' @ encodeURIComponent env cleanedQuery @
     ''&limit=10&lang=en'' @
     (case userLoc of
        None \<Rightarrow> []
      | Some u \<Rightarrow> ''&lat='' @ numberToString env (lat u) @ ''&lon='' @ numberToString env (lng u))"

fun mapFeatures :: "('f \<Rightarrow> js_value + SearchResult) \<Rightarrow> 'f list \<Rightarrow> js_value + SearchResult list" where
  "mapFeatures f [] = Inr []"
| "mapFeatures f (x # xs) =
     (case f x of
        Inl e \<Rightarrow> Inl e
      | Inr y \<Rightarrow> (case mapFeatures f xs of Inl e \<Rightarrow> Inl e | Inr ys \<Rightarrow> Inr (y # ys)))"

text \<open>The body of the \<^verbatim>\<open>try\<close> block: its value or the value it throws, and the requests
  it has issued.\<close>

definition searchPlaces_try ::
  "'f search_env \<Rightarrow> string \<Rightarrow> coordinate option \<Rightarrow> (js_value + SearchResult list) \<times> string list" where
  "searchPlaces_try env query userLoc =
     (let cleanedQuery = cleanQuery query
      in if cleanedQuery = [] then (Inr [], [])
         else
           let url = searchUrl env cleanedQuery userLoc
           in (case fetch env url of
                 Rejects e \<Rightarrow> Inl e
               | Responds ok body \<Rightarrow>
                   if \<not> ok then Inl (errorNamed ''Error'')
                   else (case body of
                           Inl e \<Rightarrow> Inl e
                         | Inr features \<Rightarrow> mapFeatures (toSearchResult env) features),
               [url]))"

text \<open>The \<^verbatim>\<open>catch\<close> block: it reads \<^verbatim>\<open>error.name\<close> first, which throws when the caught
  value is \<^verbatim>\<open>null\<close> or \<^verbatim>\<open>undefined\<close>; otherwise it logs and returns the empty list.\<close>

definition searchPlaces_catch :: "js_value \<Rightarrow> (js_value + SearchResult list) \<times> log_entry list" where
  "searchPlaces_catch error =
     (case error of
        JsNull \<Rightarrow> (Inl (errorNamed ''TypeError''), [])
      | JsUndefined \<Rightarrow> (Inl (errorNamed ''TypeError''), [])
      | JsObject nm \<Rightarrow>
          (Inr [], [if nm = Some ''AbortError'' then LogAborted else LogError error]))"

definition searchPlaces :: "'f search_env \<Rightarrow> string \<Rightarrow> coordinate option \<Rightarrow> search_run" where
  "searchPlaces env query userLoc =
     (case searchPlaces_try env query userLoc of
        (Inr rs, reqs) \<Rightarrow> \<lparr>outcome = Inr rs, requests = reqs, logged = []\<rparr>
      | (Inl e, reqs) \<Rightarrow>
          \<lparr>outcome = fst (searchPlaces_catch e), requests = reqs,
           logged = snd (searchPlaces_catch e)\<rparr>)"

section \<open>The controller as a transition system\<close>

text \<open>
  The events that change the controller's state: callbacks of the geolocation watcher,
  runs of the proximity effect, user actions, and the arrival of an AI suggestion.
\<close>

datatype event =
    Position coordinate
  | ProximityEffect nat
  | MapClick coordinate
  | TypeDraftName string
  | TypeDraftNote string
  | ConfirmDraft nat nat
  | CancelDraft
  | DraftMove coordinate
  | SearchResultClick coordinate string nat nat
  | Enhancement string string "enhancement option"
  | PlaceMove string coordinate
  | ToggleTask string
  | DeleteTask string
  | UpdatePlace string updates
  | DismissAlert string
  | SnoozeAlert string nat
  | SelectPlace "string option"

fun step :: "app_state \<Rightarrow> event \<Rightarrow> app_state" where
  "step st (Position u) = positionUpdate st u"
| "step st (ProximityEffect now) = proximityCheck st now"
| "step st (MapClick c) = handleMapClick st c"
| "step st (TypeDraftName s) = st\<lparr>draftName := s\<rparr>"
| "step st (TypeDraftNote s) = st\<lparr>draftNote := s\<rparr>"
| "step st (ConfirmDraft tId tCreated) = handleConfirmDraft st tId tCreated"
| "step st CancelDraft = handleCancelDraft st"
| "step st (DraftMove c) = handleDraftMove st c"
| "step st (SearchResultClick c nm tId tCreated) = handleSearchResultClick st c nm tId tCreated"
| "step st (Enhancement i initialNote enh) = applyEnhancement st i initialNote enh"
| "step st (PlaceMove i c) = handlePlaceMove st i c"
| "step st (ToggleTask i) = handleToggleTask st i"
| "step st (DeleteTask i) = handleDeleteTask st i"
| "step st (UpdatePlace i us) = handleUpdatePlace st i us"
| "step st (DismissAlert i) = handleDismissAlert st i"
| "step st (SnoozeAlert i now) = handleSnoozeAlert st i now"
| "step st (SelectPlace sel) = st\<lparr>selectedPlaceId := sel\<rparr>"

definition placeIds :: "app_state \<Rightarrow> string list" where
  "placeIds st = map place_id (places st)"

text \<open>
  When an event can occur. A control exists only while the thing it acts on is rendered:
  the draft panel while a draft is open, a marker or list row per place, an alert card
  per active alert. A place identifier is the clock reading at creation, and the data model
  requires identifiers to be unique: a creation reads a clock value not in use.
\<close>

fun enabled :: "app_state \<Rightarrow> event \<Rightarrow> bool" where
  "enabled st (ConfirmDraft tId tCreated) =
     (draftLocation st \<noteq> None \<and> toString tId \<notin> set (placeIds st))"
| "enabled st CancelDraft = (draftLocation st \<noteq> None)"
| "enabled st (DraftMove c) = (draftLocation st \<noteq> None)"
| "enabled st (TypeDraftName s) = (draftLocation st \<noteq> None)"
| "enabled st (TypeDraftNote s) = (draftLocation st \<noteq> None)"
| "enabled st (SearchResultClick c nm tId tCreated) = (toString tId \<notin> set (placeIds st))"
| "enabled st (PlaceMove i c) = (i \<in> set (placeIds st))"
| "enabled st (ToggleTask i) = (i \<in> set (placeIds st))"
| "enabled st (DeleteTask i) = (i \<in> set (placeIds st))"
| "enabled st (UpdatePlace i us) = (i \<in> set (placeIds st))"
| "enabled st (DismissAlert i) = isAlertActive (activeAlerts st) i"
| "enabled st (SnoozeAlert i now) = isAlertActive (activeAlerts st) i"
| "enabled st _ = True"

fun run :: "app_state \<Rightarrow> event list \<Rightarrow> app_state option" where
  "run st [] = Some st"
| "run st (e # es) = (if enabled st e then run (step st e) es else None)"

section \<open>Auxiliary notions for the proofs\<close>

text \<open>The two updating branches of \<open>checkPlace\<close>, as predicates on the place: \<open>fires\<close> is the
  condition under which an alert is appended, \<open>leaves\<close> the one under which the alerted
  flag is dropped. \<open>alertsFor\<close> selects the alerts of one place identifier.\<close>

definition fires :: "app_state \<Rightarrow> coordinate \<Rightarrow> nat \<Rightarrow> place \<Rightarrow> bool" where
  "fires snap u now p =
     (\<not> isCompleted p \<and> calculateDistance u (location p) \<le> radius p
      \<and> \<not> isSnoozed (snoozedPlaceIds snap) (place_id p) now
      \<and> place_id p \<notin> alertedPlaceIds snap
      \<and> \<not> isAlertActive (activeAlerts snap) (place_id p))"

definition leaves :: "app_state \<Rightarrow> coordinate \<Rightarrow> place \<Rightarrow> bool" where
  "leaves snap u p =
     (\<not> isCompleted p \<and> \<not> calculateDistance u (location p) \<le> radius p
      \<and> place_id p \<in> alertedPlaceIds snap)"

definition alertsFor :: "string \<Rightarrow> alert list \<Rightarrow> alert list" where
  "alertsFor i as = filter (\<lambda>a. placeId a = i) as"

text \<open>The alerts one evaluation creates.\<close>

definition created :: "app_state \<Rightarrow> coordinate \<times> nat \<Rightarrow> alert list" where
  "created st un =
     map (\<lambda>p. mkAlert p (snd un))
       (filter (fires (positionUpdate st (fst un)) (fst un) (snd un)) (places st))"

text \<open>The alerts a sequence of evaluations creates, in order.\<close>

fun createdOver :: "app_state \<Rightarrow> (coordinate \<times> nat) list \<Rightarrow> alert list" where
  "createdOver st [] = []"
| "createdOver st (un # uns) = created st un @ createdOver (evaluateAt st un) uns"


section \<open>An example state\<close>

text \<open>One place, created from a draft named Cafe at clock reading 1000.\<close>

definition examplePlace :: place where
  "examplePlace =
     \<lparr>place_id = ''1000'', name = ''Cafe'', location = \<lparr>lat = 0, lng = 1\<rparr>,
      category = Generic, radius = PROXIMITY_THRESHOLD_METERS, place_notes = Some [],
      isCompleted = False, createdAt = 1000, listId = None\<rparr>"

definition exampleState :: app_state where
  "exampleState = initial_state\<lparr>places := [examplePlace], selectedPlaceId := Some ''1000''\<rparr>"

text \<open>A place under a snooze with expiry \<open>e\<close>: no active alert, not alerted.\<close>

definition snoozedQuiet :: "app_state \<Rightarrow> string \<Rightarrow> nat \<Rightarrow> bool" where
  "snoozedQuiet s i e =
     (snoozedPlaceIds s i = Some e \<and> alertsFor i (activeAlerts s) = [] \<and> i \<notin> alertedPlaceIds s)"

text \<open>Events that leave the alerts of place identifier \<open>i\<close> alone: every event but a
  dismissal or a snooze of \<open>i\<close> and the creation of a place whose clock reading prints as
  \<open>i\<close>. An orphan alert is an active alert whose place is not in the collection.\<close>

fun keepsAlert :: "string \<Rightarrow> event \<Rightarrow> bool" where
  "keepsAlert i (DismissAlert j) = (j \<noteq> i)"
| "keepsAlert i (SnoozeAlert j now) = (j \<noteq> i)"
| "keepsAlert i (ConfirmDraft tId tCreated) = (toString tId \<noteq> i)"
| "keepsAlert i (SearchResultClick c nm tId tCreated) = (toString tId \<noteq> i)"
| "keepsAlert i _ = True"

definition orphanAlert :: "alert \<Rightarrow> app_state \<Rightarrow> bool" where
  "orphanAlert a s = (a \<in> set (activeAlerts s) \<and> placeId a \<notin> set (placeIds s))"

text \<open>Three environments for the search: every request is aborted with the default reason;
  every request is aborted with the reason \<^verbatim>\<open>null\<close>
  (\<^verbatim>\<open>controller.abort(null)\<close>); every request is answered with a non-success status.\<close>

definition abortingEnv :: "unit search_env" where
  "abortingEnv =
     \<lparr>encodeURIComponent = (\<lambda>q. q), numberToString = (\<lambda>x. []),
      fetch = (\<lambda>url. Rejects (errorNamed ''AbortError'')),
      toSearchResult = (\<lambda>f. Inl (errorNamed ''TypeError''))\<rparr>"

definition nullAbortingEnv :: "unit search_env" where
  "nullAbortingEnv = abortingEnv\<lparr>fetch := (\<lambda>url. Rejects JsNull)\<rparr>"

definition refusingEnv :: "unit search_env" where
  "refusingEnv = abortingEnv\<lparr>fetch := (\<lambda>url. Responds False (Inr []))\<rparr>"

section \<open>Lemmas on the distance\<close>

lemma calculateDistance_self: "calculateDistance A A = 0"
  by (simp add: calculateDistance_def atan2_def)

lemma atan2_sin_cos:
  assumes "0 < x" "x < pi / 2"
  shows "atan2 (sqrt (sin x * sin x)) (sqrt (1 - sin x * sin x)) = x"
proof -
  have s: "0 < sin x" using assms by (intro sin_gt_zero) simp_all
  have c: "0 < cos x" using assms by (intro cos_gt_zero) simp_all
  have "1 - sin x * sin x = cos x * cos x"
    using sin_cos_squared_add[of x] by (simp add: power2_eq_square)
  then have "sqrt (1 - sin x * sin x) = cos x" using c by simp
  moreover have "sqrt (sin x * sin x) = sin x" using s by simp
  moreover have "arctan (sin x / cos x) = x"
    using assms arctan_tan[of x] by (simp add: tan_def)
  ultimately show ?thesis using c by (simp add: atan2_def)
qed

lemma calculateDistance_equator_degree:
  "calculateDistance \<lparr>lat = 0, lng = 0\<rparr> \<lparr>lat = 0, lng = 1\<rparr> = 6371000 * pi / 180"
proof -
  have "atan2 (sqrt (sin (pi / 360) * sin (pi / 360)))
          (sqrt (1 - sin (pi / 360) * sin (pi / 360))) = pi / 360"
    by (rule atan2_sin_cos) simp_all
  then show ?thesis by (simp add: calculateDistance_def)
qed

section \<open>Lemmas on the proximity check\<close>

lemma checkPlace_cases:
  "checkPlace snap u now acc p =
     (if fires snap u now p then
        acc\<lparr>activeAlerts := activeAlerts acc @ [mkAlert p now],
            alertedPlaceIds := insert (place_id p) (alertedPlaceIds acc)\<rparr>
      else if leaves snap u p then acc\<lparr>alertedPlaceIds := alertedPlaceIds acc - {place_id p}\<rparr>
      else acc)"
  by (auto simp: checkPlace_def fires_def leaves_def Let_def)

lemma foldl_checkPlace_alerts:
  "activeAlerts (foldl (checkPlace snap u now) acc ps) =
     activeAlerts acc @ map (\<lambda>p. mkAlert p now) (filter (fires snap u now) ps)"
  by (induction ps arbitrary: acc) (simp_all add: checkPlace_cases)

lemma foldl_checkPlace_frame:
  "(foldl (checkPlace snap u now) acc ps)\<lparr>activeAlerts := X, alertedPlaceIds := Y\<rparr> =
     acc\<lparr>activeAlerts := X, alertedPlaceIds := Y\<rparr>"
  by (induction ps arbitrary: acc) (simp_all add: checkPlace_cases)

lemma proximityCheck_frame:
  "(proximityCheck st now)\<lparr>activeAlerts := X, alertedPlaceIds := Y\<rparr> =
     st\<lparr>activeAlerts := X, alertedPlaceIds := Y\<rparr>"
  by (simp add: proximityCheck_def foldl_checkPlace_frame split: option.splits)

lemma proximityCheck_cells:
  "places (proximityCheck st now) = places st"
  "userLocation (proximityCheck st now) = userLocation st"
  "snoozedPlaceIds (proximityCheck st now) = snoozedPlaceIds st"
  "selectedPlaceId (proximityCheck st now) = selectedPlaceId st"
  "draftLocation (proximityCheck st now) = draftLocation st"
proof -
  let ?r = "\<lambda>s. s\<lparr>activeAlerts := [], alertedPlaceIds := {}\<rparr>"
  have e: "?r (proximityCheck st now) = ?r st" by (rule proximityCheck_frame)
  have "places (?r (proximityCheck st now)) = places (?r st)" by (simp only: e)
  then show "places (proximityCheck st now) = places st" by simp
  have "userLocation (?r (proximityCheck st now)) = userLocation (?r st)" by (simp only: e)
  then show "userLocation (proximityCheck st now) = userLocation st" by simp
  have "snoozedPlaceIds (?r (proximityCheck st now)) = snoozedPlaceIds (?r st)" by (simp only: e)
  then show "snoozedPlaceIds (proximityCheck st now) = snoozedPlaceIds st" by simp
  have "selectedPlaceId (?r (proximityCheck st now)) = selectedPlaceId (?r st)" by (simp only: e)
  then show "selectedPlaceId (proximityCheck st now) = selectedPlaceId st" by simp
  have "draftLocation (?r (proximityCheck st now)) = draftLocation (?r st)" by (simp only: e)
  then show "draftLocation (proximityCheck st now) = draftLocation st" by simp
qed

lemma proximityCheck_alerts:
  "activeAlerts (proximityCheck st now) =
     activeAlerts st @
       (case userLocation st of None \<Rightarrow> []
        | Some u \<Rightarrow> map (\<lambda>p. mkAlert p now) (filter (fires st u now) (places st)))"
  by (simp add: proximityCheck_def foldl_checkPlace_alerts split: option.splits)

lemma foldl_checkPlace_alerted_fresh:
  assumes "i \<notin> alertedPlaceIds snap"
  shows "i \<in> alertedPlaceIds (foldl (checkPlace snap u now) acc ps) \<longleftrightarrow>
           i \<in> alertedPlaceIds acc \<or> (\<exists>p \<in> set ps. place_id p = i \<and> fires snap u now p)"
  using assms by (induction ps arbitrary: acc) (auto simp: checkPlace_cases leaves_def)

lemma foldl_checkPlace_alerted_old:
  assumes "i \<in> alertedPlaceIds snap"
  shows "i \<in> alertedPlaceIds (foldl (checkPlace snap u now) acc ps) \<longleftrightarrow>
           i \<in> alertedPlaceIds acc \<and> \<not> (\<exists>p \<in> set ps. place_id p = i \<and> leaves snap u p)"
  using assms by (induction ps arbitrary: acc) (auto simp: checkPlace_cases fires_def)

lemma isAlertActive_alertsFor: "isAlertActive as i \<longleftrightarrow> alertsFor i as \<noteq> []"
  by (auto simp: isAlertActive_def alertsFor_def list_ex_iff filter_empty_conv)

lemma alertsFor_append [simp]: "alertsFor i (xs @ ys) = alertsFor i xs @ alertsFor i ys"
  by (simp add: alertsFor_def)

lemma alertsFor_mkAlert:
  "alertsFor i (map (\<lambda>p. mkAlert p now) ps) =
     map (\<lambda>p. mkAlert p now) (filter (\<lambda>p. place_id p = i) ps)"
  by (induction ps) (simp_all add: alertsFor_def mkAlert_def)

lemma filter_place_id_distinct:
  "distinct (map place_id ps) \<Longrightarrow> p \<in> set ps \<Longrightarrow> filter (\<lambda>q. place_id q = place_id p) ps = [p]"
proof (induction ps)
  case Nil
  then show ?case by simp
next
  case (Cons q qs)
  show ?case
  proof (cases "q = p")
    case True
    with Cons.prems have "\<forall>r \<in> set qs. place_id r \<noteq> place_id p" by (auto simp: image_iff)
    then have "filter (\<lambda>r. place_id r = place_id p) qs = []" by (simp add: filter_empty_conv)
    with True show ?thesis by simp
  next
    case False
    with Cons.prems have "p \<in> set qs" "place_id q \<noteq> place_id p" by auto
    with Cons show ?thesis by simp
  qed
qed


lemma evaluateAt_alerts:
  "activeAlerts (evaluateAt st un) = activeAlerts st @ created st un"
  by (simp add: evaluateAt_def created_def proximityCheck_alerts positionUpdate_def)

lemma evaluateAt_places [simp]: "places (evaluateAt st un) = places st"
  by (simp add: evaluateAt_def proximityCheck_cells positionUpdate_def)

lemma fires_positionUpdate:
  "fires (positionUpdate st v) u now p = fires st u now p"
  by (simp add: fires_def positionUpdate_def)

lemma created_for:
  "alertsFor i (created st un) =
     map (\<lambda>p. mkAlert p (snd un))
       (filter (\<lambda>p. place_id p = i \<and> fires st (fst un) (snd un) p) (places st))"
  by (simp add: created_def alertsFor_mkAlert fires_positionUpdate conj_commute)




lemma foldl_evaluateAt_alerts:
  "activeAlerts (foldl evaluateAt st uns) = activeAlerts st @ createdOver st uns"
  by (induction uns arbitrary: st) (simp_all add: evaluateAt_alerts)

lemma foldl_evaluateAt_places [simp]: "places (foldl evaluateAt st uns) = places st"
  by (induction uns arbitrary: st) simp_all





lemma toString_nonempty: "toString n \<noteq> []"
  by (subst toString.simps) simp

lemma map_place_id_update:
  "(\<And>p. place_id (f p) = place_id p) \<Longrightarrow>
     map (place_id \<circ> (\<lambda>p. if place_id p = i then f p else p)) ps = map place_id ps"
  by (induction ps) simp_all






section \<open>Lemmas on the example state\<close>

lemma toString_1000: "toString 1000 = ''1000''"
  by (simp add: toString.simps digitChar_def)


lemma example_inside: "calculateDistance \<lparr>lat = 0, lng = 1\<rparr> (location examplePlace) \<le> radius examplePlace"
  by (simp add: examplePlace_def calculateDistance_self PROXIMITY_THRESHOLD_METERS_def)

lemma example_outside: "\<not> calculateDistance \<lparr>lat = 0, lng = 0\<rparr> (location examplePlace) \<le> radius examplePlace"
  using pi_ge_two
  by (simp add: examplePlace_def calculateDistance_equator_degree PROXIMITY_THRESHOLD_METERS_def)

section \<open>Lemmas on single evaluations\<close>

lemma equator_degree_outside:
  "\<not> calculateDistance \<lparr>lat = 0, lng = 0\<rparr> \<lparr>lat = 0, lng = 1\<rparr> \<le> 200"
  using pi_ge_two by (simp add: calculateDistance_equator_degree)

lemma evaluateAt_cells:
  "snoozedPlaceIds (evaluateAt st un) = snoozedPlaceIds st"
  "userLocation (evaluateAt st un) = Some (fst un)"
  by (simp_all add: evaluateAt_def proximityCheck_cells positionUpdate_def)

lemma evaluateAt_alerted_fresh:
  assumes "i \<notin> alertedPlaceIds st"
  shows "i \<in> alertedPlaceIds (evaluateAt st un) \<longleftrightarrow>
           (\<exists>p \<in> set (places st). place_id p = i \<and> fires st (fst un) (snd un) p)"
proof -
  let ?s = "positionUpdate st (fst un)"
  have "i \<notin> alertedPlaceIds ?s" using assms by (simp add: positionUpdate_def)
  from foldl_checkPlace_alerted_fresh[OF this, of "fst un" "snd un" ?s "places ?s"]
  show ?thesis using assms
    by (simp add: evaluateAt_def proximityCheck_def fires_positionUpdate)
      (simp add: positionUpdate_def)
qed

lemma leaves_positionUpdate: "leaves (positionUpdate st v) u p = leaves st u p"
  by (simp add: leaves_def positionUpdate_def)

lemma evaluateAt_alerted_old:
  assumes "i \<in> alertedPlaceIds st"
  shows "i \<in> alertedPlaceIds (evaluateAt st un) \<longleftrightarrow>
           \<not> (\<exists>p \<in> set (places st). place_id p = i \<and> leaves st (fst un) p)"
proof -
  let ?s = "positionUpdate st (fst un)"
  have "i \<in> alertedPlaceIds ?s" using assms by (simp add: positionUpdate_def)
  from foldl_checkPlace_alerted_old[OF this, of "fst un" "snd un" ?s "places ?s"]
  show ?thesis using assms
    by (simp add: evaluateAt_def proximityCheck_def leaves_positionUpdate)
      (simp add: positionUpdate_def)
qed

lemma created_for_place:
  assumes "distinct (placeIds st)" "p \<in> set (places st)"
  shows "alertsFor (place_id p) (created st un) =
           (if fires st (fst un) (snd un) p then [mkAlert p (snd un)] else [])"
proof -
  have "filter (\<lambda>q. place_id q = place_id p \<and> fires st (fst un) (snd un) q) (places st)
        = filter (fires st (fst un) (snd un)) (filter (\<lambda>q. place_id q = place_id p) (places st))"
    by (simp add: conj_commute)
  also have "\<dots> = filter (fires st (fst un) (snd un)) [p]"
    using assms by (simp add: filter_place_id_distinct placeIds_def)
  finally show ?thesis by (simp add: created_for)
qed

lemma only_place_with_id:
  assumes "distinct (placeIds st)" "p \<in> set (places st)"
  shows "(\<exists>q \<in> set (places st). place_id q = place_id p \<and> P q) \<longleftrightarrow> P p"
proof -
  have "q = p" if "q \<in> set (places st)" "place_id q = place_id p" for q
    using assms that by (metis distinct_map inj_onD placeIds_def)
  with assms(2) show ?thesis by auto
qed


lemma evaluateAt_place:
  assumes "distinct (placeIds st)" "p \<in> set (places st)"
  shows "alertsFor (place_id p) (activeAlerts (evaluateAt st un)) =
           alertsFor (place_id p) (activeAlerts st) @
             (if fires st (fst un) (snd un) p then [mkAlert p (snd un)] else [])"
    and "place_id p \<in> alertedPlaceIds (evaluateAt st un) \<longleftrightarrow>
           (if place_id p \<in> alertedPlaceIds st then \<not> leaves st (fst un) p
            else fires st (fst un) (snd un) p)"
    and "distinct (placeIds (evaluateAt st un))" and "p \<in> set (places (evaluateAt st un))"
  using assms created_for_place[OF assms, of un]
    evaluateAt_alerted_fresh[of "place_id p" st un] evaluateAt_alerted_old[of "place_id p" st un]
    only_place_with_id[OF assms]
  by (simp_all add: evaluateAt_alerts placeIds_def)

lemma handleDismissAlert_cells:
  "places (handleDismissAlert st i) = places st"
  "alertedPlaceIds (handleDismissAlert st i) = alertedPlaceIds st"
  "snoozedPlaceIds (handleDismissAlert st i) = snoozedPlaceIds st"
  "alertsFor i (activeAlerts (handleDismissAlert st i)) = []"
  "placeIds (handleDismissAlert st i) = placeIds st"
  by (simp_all add: handleDismissAlert_def alertsFor_def placeIds_def)

section \<open>Lemmas on snoozed places\<close>

lemma created_member:
  assumes "p \<in> set (places st)" "fires st (fst un) (snd un) p"
  shows "mkAlert p (snd un) \<in> set (created st un)"
  using assms by (auto simp: created_def fires_positionUpdate)

lemma created_for_none:
  assumes "\<forall>q \<in> set (places st). place_id q = i \<longrightarrow> \<not> fires st (fst un) (snd un) q"
  shows "alertsFor i (created st un) = []"
  using assms by (auto simp: created_for filter_empty_conv)

lemma fires_snoozed:
  "isSnoozed (snoozedPlaceIds st) (place_id q) t \<Longrightarrow> \<not> fires st u t q"
  by (simp add: fires_def)

lemma snoozedQuiet_evaluateAt:
  assumes "snoozedQuiet s i e" "snd un < e"
  shows "snoozedQuiet (evaluateAt s un) i e"
proof -
  have sn: "isSnoozed (snoozedPlaceIds s) i (snd un)"
    using assms by (simp add: snoozedQuiet_def isSnoozed_def)
  then have nf: "\<forall>q \<in> set (places s). place_id q = i \<longrightarrow> \<not> fires s (fst un) (snd un) q"
    by (auto simp: fires_def)
  from created_for_none[OF nf] evaluateAt_alerted_fresh[of i s un] nf assms(1)
  show ?thesis
    by (auto simp: snoozedQuiet_def evaluateAt_alerts evaluateAt_cells)
qed

lemma snoozedQuiet_foldl:
  assumes "snoozedQuiet s i e" "\<forall>un \<in> set uns. snd un < e"
  shows "snoozedQuiet (foldl evaluateAt s uns) i e"
  using assms by (induction uns arbitrary: s) (simp_all add: snoozedQuiet_evaluateAt)

lemma snoozedQuiet_expired:
  assumes "snoozedQuiet s i e" "e \<le> t" "p \<in> set (places s)" "place_id p = i"
    and "\<not> isCompleted p" "calculateDistance u (location p) \<le> radius p"
  shows "\<exists>new. activeAlerts (evaluateAt s (u, t)) = activeAlerts s @ new \<and> mkAlert p t \<in> set new"
proof -
  have "fires s u t p"
    using assms by (simp add: fires_def snoozedQuiet_def isSnoozed_def isAlertActive_alertsFor)
  with assms(3) have "mkAlert p t \<in> set (created s (u, t))"
    using created_member[of p s "(u, t)"] by simp
  then show ?thesis using evaluateAt_alerts[of s "(u, t)"] by blast
qed

lemma handleSnoozeAlert_quiet:
  "snoozedQuiet (handleSnoozeAlert st i T) i (T + 300000)"
  by (simp add: snoozedQuiet_def handleSnoozeAlert_def SNOOZE_DURATION_def alertsFor_def)

section \<open>Lemmas on alerts of deleted places\<close>

lemma step_orphanAlert:
  assumes "orphanAlert a s" "enabled s e" "keepsAlert (placeId a) e"
  shows "orphanAlert a (step s e)"
proof (cases e)
  case (ProximityEffect now)
  with assms show ?thesis
    by (simp add: orphanAlert_def placeIds_def proximityCheck_alerts proximityCheck_cells)
next
  case (ConfirmDraft tId tCreated)
  with assms show ?thesis
    by (auto simp: orphanAlert_def placeIds_def handleConfirmDraft_def handleAddPlace_def
        clearDraft_def orElse_def toString_nonempty Let_def)
next
  case (SearchResultClick c nm tId tCreated)
  with assms show ?thesis
    by (auto simp: orphanAlert_def placeIds_def handleSearchResultClick_def handleAddPlace_def
        orElse_def toString_nonempty Let_def)
next
  case (Enhancement i initialNote enh)
  with assms show ?thesis
    by (cases enh) (simp_all add: orphanAlert_def placeIds_def applyEnhancement_def map_place_id_update)
next
  case (PlaceMove i c)
  with assms show ?thesis
    by (auto simp: orphanAlert_def placeIds_def handlePlaceMove_def map_place_id_update)
next
  case (ToggleTask i)
  with assms show ?thesis
    by (simp add: orphanAlert_def placeIds_def handleToggleTask_def map_place_id_update)
next
  case (DeleteTask i)
  with assms show ?thesis
    by (auto simp: orphanAlert_def placeIds_def handleDeleteTask_def Let_def)
next
  case (UpdatePlace i us)
  with assms show ?thesis
    by (simp add: orphanAlert_def placeIds_def handleUpdatePlace_def mergeUpdates_def map_place_id_update)
next
  case (DismissAlert i)
  with assms show ?thesis
    by (simp add: orphanAlert_def placeIds_def handleDismissAlert_def)
next
  case (SnoozeAlert i now)
  with assms show ?thesis
    by (simp add: orphanAlert_def placeIds_def handleSnoozeAlert_def)
qed (use assms in \<open>simp_all add: orphanAlert_def placeIds_def positionUpdate_def handleMapClick_def
      handleCancelDraft_def clearDraft_def handleDraftMove_def\<close>)

lemma run_orphanAlert:
  "orphanAlert a s \<Longrightarrow> run s es = Some s' \<Longrightarrow> \<forall>e \<in> set es. keepsAlert (placeId a) e
     \<Longrightarrow> orphanAlert a s'"
proof (induction es arbitrary: s)
  case Nil
  then show ?case by simp
next
  case (Cons e es)
  from Cons.prems have en: "enabled s e" and r: "run (step s e) es = Some s'"
    by (auto split: if_splits)
  from Cons.prems(1) en have "orphanAlert a (step s e)"
    using Cons.prems(3) by (intro step_orphanAlert) simp_all
  from Cons.IH[OF this r] Cons.prems(3) show ?case by simp
qed

section \<open>Lemmas on trimming and draft confirmation\<close>

lemma dropWhile_keep: "xs \<noteq> [] \<Longrightarrow> \<not> P (hd xs) \<Longrightarrow> dropWhile P (xs @ ys) = xs @ ys"
  by (cases xs) simp_all

lemma trim_surround:
  assumes "\<forall>c \<in> set l. isWhiteSpace c" and "\<forall>c \<in> set r. isWhiteSpace c"
    and "n = [] \<or> (\<not> isWhiteSpace (hd n) \<and> \<not> isWhiteSpace (last n))"
  shows "trim (l @ n @ r) = n"
proof (cases "n = []")
  case True
  have h: "dropWhile isWhiteSpace (l @ r) = []"
    using assms(1,2) by (auto simp: dropWhile_eq_Nil_conv)
  show ?thesis
    by (simp only: trim_def True append_Nil h rev.simps dropWhile.simps)
next
  case False
  with assms(3) have e: "\<not> isWhiteSpace (hd n)" "\<not> isWhiteSpace (last n)" by simp_all
  have "dropWhile isWhiteSpace (l @ n @ r) = dropWhile isWhiteSpace (n @ r)"
    using assms(1) by (simp add: dropWhile_append2)
  also have "\<dots> = n @ r" using False e(1) by (rule dropWhile_keep)
  finally have 1: "dropWhile isWhiteSpace (l @ n @ r) = n @ r" .
  have "dropWhile isWhiteSpace (rev r @ rev n) = dropWhile isWhiteSpace (rev n)"
    using assms(2) by (intro dropWhile_append2) simp
  then have "dropWhile isWhiteSpace (rev (n @ r)) = dropWhile isWhiteSpace (rev n)"
    by simp
  also have "\<dots> = rev n"
    using False e(2) dropWhile_keep[of "rev n" isWhiteSpace "[]"] by (simp add: hd_rev)
  finally show ?thesis using 1 by (simp add: trim_def)
qed

lemma trim_blank: "\<forall>c \<in> set s. isWhiteSpace c \<Longrightarrow> trim s = []"
  using trim_surround[of s "[]" "[]"] by simp

lemma handleConfirmDraft_places:
  assumes "draftLocation st = Some loc"
  shows "handleConfirmDraft st tId tC =
     (clearDraft st)\<lparr>places :=
          \<lparr>place_id = toString tId, name = orElse (trim (draftName st)) ''New Place'',
            location = loc, category = Generic, radius = 200,
            place_notes = Some (trim (draftNote st)), isCompleted = False,
            createdAt = tC, listId = None\<rparr> # places st,
        selectedPlaceId := Some (toString tId)\<rparr>"
  using assms
  by (simp add: handleConfirmDraft_def handleAddPlace_def clearDraft_def orElse_def
      initialNoteOf_def toString_nonempty PROXIMITY_THRESHOLD_METERS_def Let_def)

section \<open>Lemmas on the enrichment\<close>

lemma initialNoteOf_simps:
  "initialNoteOf None = []" "initialNoteOf (Some n) = n"
  by (simp_all add: initialNoteOf_def orElse_def)

lemma applyEnhancement_head:
  assumes "place_id q = i"
  shows "places (applyEnhancement (st\<lparr>places := q # ps\<rparr>) i note (Some e)) =
     q\<lparr>category := enh_category e,
       place_notes := Some (if note \<noteq> [] then note else suggestedNote e)\<rparr> #
     map (\<lambda>p. if place_id p = i
               then p\<lparr>category := enh_category e,
                      place_notes := Some (if note \<noteq> [] then note else suggestedNote e)\<rparr>
               else p) ps"
  using assms by (simp add: applyEnhancement_def)

lemma map_other_ids:
  "i \<notin> set (map place_id ps) \<Longrightarrow> map (\<lambda>p. if place_id p = i then f p else p) ps = ps"
  by (induction ps) auto

section \<open>Lemmas on the search\<close>

lemmas search_eval = cleanQuery_def trim_def isWhiteSpace_def matchAt_def matchEnd_def
  matchesAt_def fillers_def toLower_def

lemma cleanQuery_examples:
  "cleanQuery ''pizza near me'' = ''pizza''"
  "cleanQuery ''nearby'' = []"
  "cleanQuery ''Pizza NEAR ME'' = ''Pizza''"
  "cleanQuery ''coffee shop nearby'' = ''coffee shop''"
  "cleanQuery ''closest nearby pharmacy'' = ''nearby pharmacy''"
  by (simp_all add: search_eval)

lemma searchPlaces_requests:
  "requests (searchPlaces env query u) =
     (if cleanQuery query = [] then [] else [searchUrl env (cleanQuery query) u])"
  by (simp add: searchPlaces_def searchPlaces_try_def Let_def split: sum.splits prod.splits)

lemma searchPlaces_empty:
  "cleanQuery query = [] \<Longrightarrow> searchPlaces env query u = \<lparr>outcome = Inr [], requests = [], logged = []\<rparr>"
  by (simp add: searchPlaces_def searchPlaces_try_def)

lemma searchPlaces_throw:
  "fst (searchPlaces_try env query u) = Inl e \<Longrightarrow>
     outcome (searchPlaces env query u) = fst (searchPlaces_catch e)
     \<and> logged (searchPlaces env query u) = snd (searchPlaces_catch e)"
  by (cases "searchPlaces_try env query u") (simp add: searchPlaces_def)

lemma searchPlaces_try_failures:
  assumes "cleanQuery query \<noteq> []"
  shows "fetch env (searchUrl env (cleanQuery query) u) = Rejects e \<Longrightarrow>
           fst (searchPlaces_try env query u) = Inl e"
    and "fetch env (searchUrl env (cleanQuery query) u) = Responds False b \<Longrightarrow>
           fst (searchPlaces_try env query u) = Inl (errorNamed ''Error'')"
    and "fetch env (searchUrl env (cleanQuery query) u) = Responds True (Inl e) \<Longrightarrow>
           fst (searchPlaces_try env query u) = Inl e"
  using assms by (simp_all add: searchPlaces_try_def Let_def)

lemma searchPlaces_catch_object:
  "searchPlaces_catch (JsObject nm) =
     (Inr [], [if nm = Some ''AbortError'' then LogAborted else LogError (JsObject nm)])"
  by (simp add: searchPlaces_catch_def)

lemma searchPlaces_catch_nullish:
  "searchPlaces_catch JsNull = (Inl (errorNamed ''TypeError''), [])"
  "searchPlaces_catch JsUndefined = (Inl (errorNamed ''TypeError''), [])"
  by (simp_all add: searchPlaces_catch_def)

section \<open>Properties of the specification\<close>

subsection \<open>Moving a place\<close>

text \<open>
  Claim C4. For every place identifier present in the collection and any prior suppression
  state, the move operation replaces exactly that place's location (all its other fields
  and every other place unchanged), removes the identifier from the alerted-this-entry
  set, removes its snooze-expiry entry, and removes every active alert for that
  identifier. Nothing else of the controller's state changes.
\<close>

theorem handlePlaceMove_resets:
  fixes i :: string and st :: app_state and l :: coordinate
  assumes "i \<in> place_id ` set (places st)"
  defines "st' \<equiv> handlePlaceMove st i l"
  shows "length (places st') = length (places st)
       \<and> (\<forall>k < length (places st).
            places st' ! k =
              (if place_id (places st ! k) = i then (places st ! k)\<lparr>location := l\<rparr>
               else places st ! k))
       \<and> (\<exists>p \<in> set (places st'). place_id p = i \<and> location p = l)
       \<and> i \<notin> alertedPlaceIds st'
       \<and> (\<forall>j. j \<noteq> i \<longrightarrow> (j \<in> alertedPlaceIds st' \<longleftrightarrow> j \<in> alertedPlaceIds st))
       \<and> snoozedPlaceIds st' i = None
       \<and> (\<forall>j. j \<noteq> i \<longrightarrow> snoozedPlaceIds st' j = snoozedPlaceIds st j)
       \<and> (\<forall>a \<in> set (activeAlerts st'). placeId a \<noteq> i)
       \<and> filter (\<lambda>a. placeId a \<noteq> i) (activeAlerts st') =
           filter (\<lambda>a. placeId a \<noteq> i) (activeAlerts st)
       \<and> st'\<lparr>places := places st, alertedPlaceIds := alertedPlaceIds st,
              snoozedPlaceIds := snoozedPlaceIds st, activeAlerts := activeAlerts st\<rparr> = st"
proof -
  from assms(1) obtain q where q: "q \<in> set (places st)" "place_id q = i"
    by auto
  have "q\<lparr>location := l\<rparr> \<in> set (places st')"
    using q by (force simp: st'_def handlePlaceMove_def)
  then have moved: "\<exists>p \<in> set (places st'). place_id p = i \<and> location p = l"
    using q(2) by (intro bexI[of _ "q\<lparr>location := l\<rparr>"]) simp_all
  have rest: "length (places st') = length (places st)"
    "\<forall>k < length (places st).
       places st' ! k =
         (if place_id (places st ! k) = i then (places st ! k)\<lparr>location := l\<rparr>
          else places st ! k)"
    "i \<notin> alertedPlaceIds st'"
    "\<forall>j. j \<noteq> i \<longrightarrow> (j \<in> alertedPlaceIds st' \<longleftrightarrow> j \<in> alertedPlaceIds st)"
    "snoozedPlaceIds st' i = None"
    "\<forall>j. j \<noteq> i \<longrightarrow> snoozedPlaceIds st' j = snoozedPlaceIds st j"
    "\<forall>a \<in> set (activeAlerts st'). placeId a \<noteq> i"
    "filter (\<lambda>a. placeId a \<noteq> i) (activeAlerts st') =
       filter (\<lambda>a. placeId a \<noteq> i) (activeAlerts st)"
    "st'\<lparr>places := places st, alertedPlaceIds := alertedPlaceIds st,
        snoozedPlaceIds := snoozedPlaceIds st, activeAlerts := activeAlerts st\<rparr> = st"
    by (simp_all add: st'_def handlePlaceMove_def)
  from moved rest show ?thesis by blast
qed

theorem handlePlaceMove_resets_witness:
  "(let p = \<lparr>place_id = ''7'', name = ''Cafe'', location = \<lparr>lat = 1, lng = 2\<rparr>,
              category = Food, radius = 200, place_notes = Some ''tea'', isCompleted = False,
              createdAt = 7, listId = None\<rparr>;
        st = initial_state\<lparr>places := [p], alertedPlaceIds := {''7''},
               snoozedPlaceIds := [''7'' \<mapsto> 900],
               activeAlerts := [\<lparr>placeId = ''7'', message = ''You are near Cafe!'', timestamp = 3\<rparr>]\<rparr>;
        st' = handlePlaceMove st ''7'' \<lparr>lat = 5, lng = 6\<rparr>
    in ''7'' \<in> place_id ` set (places st)
       \<and> places st' = [p\<lparr>location := \<lparr>lat = 5, lng = 6\<rparr>\<rparr>]
       \<and> ''7'' \<notin> alertedPlaceIds st' \<and> snoozedPlaceIds st' ''7'' = None
       \<and> activeAlerts st' = []
       \<and> (\<forall>a \<in> set (activeAlerts st'). placeId a \<noteq> ''7''))"
  using handlePlaceMove_resets [of "''7''"
      "initial_state\<lparr>places := [\<lparr>place_id = ''7'', name = ''Cafe'', location = \<lparr>lat = 1, lng = 2\<rparr>,
              category = Food, radius = 200, place_notes = Some ''tea'', isCompleted = False,
              createdAt = 7, listId = None\<rparr>], alertedPlaceIds := {''7''},
               snoozedPlaceIds := [''7'' \<mapsto> 900],
               activeAlerts := [\<lparr>placeId = ''7'', message = ''You are near Cafe!'', timestamp = 3\<rparr>]\<rparr>"
      "\<lparr>lat = 5, lng = 6\<rparr>"]
  by (simp add: handlePlaceMove_def initial_state_def Let_def)

subsection \<open>No repeated alert during a continuous stay\<close>




subsection \<open>Exit and re-entry\<close>

text \<open>
  Claim C2, as amended. A place with a unique identifier, not completed, is entered (the
  evaluation creates one alert), left (distance strictly greater than the radius, an
  evaluation runs) and entered again (another evaluation runs). With no user action in
  between, the exit clears the alerted-this-entry flag but the first alert is still in the
  active-alerts list, so the re-entry creates nothing: exactly one alert is created in
  total. When the user dismisses the first alert before the re-entry (before or after the
  exit), the re-entry creates a second alert: two alerts are created in total.
\<close>

theorem reentry_after_exit:
  assumes "distinct (placeIds st)" and "p \<in> set (places st)" and "\<not> isCompleted p"
    and "place_id p \<notin> alertedPlaceIds st"
    and "\<not> isAlertActive (activeAlerts st) (place_id p)"
    and "calculateDistance u1 (location p) \<le> radius p"
    and "calculateDistance u2 (location p) > radius p"
    and "calculateDistance u3 (location p) \<le> radius p"
    and "\<not> isSnoozed (snoozedPlaceIds st) (place_id p) tin"
    and "\<not> isSnoozed (snoozedPlaceIds st) (place_id p) tback"
  shows "(let s1 = evaluateAt st (u1, tin);
              s2 = evaluateAt s1 (u2, tout);
              s3 = evaluateAt s2 (u3, tback)
          in alertsFor (place_id p) (activeAlerts s1) = [mkAlert p tin]
             \<and> alertsFor (place_id p) (activeAlerts s2) = [mkAlert p tin]
             \<and> place_id p \<notin> alertedPlaceIds s2
             \<and> alertsFor (place_id p) (activeAlerts s3) = [mkAlert p tin]
             \<and> (\<exists>new. activeAlerts s3 = activeAlerts st @ new
                   \<and> alertsFor (place_id p) new = [mkAlert p tin]))
       \<and> (let s1 = evaluateAt st (u1, tin);
              d1 = evaluateAt (handleDismissAlert s1 (place_id p)) (u1, tdis);
              s2 = evaluateAt d1 (u2, tout);
              s3 = evaluateAt s2 (u3, tback)
          in alertsFor (place_id p) (activeAlerts s1) = [mkAlert p tin]
             \<and> alertsFor (place_id p) (activeAlerts d1) = []
             \<and> alertsFor (place_id p) (activeAlerts s2) = []
             \<and> alertsFor (place_id p) (activeAlerts s3) = [mkAlert p tback])
       \<and> (let s1 = evaluateAt st (u1, tin);
              s2 = evaluateAt s1 (u2, tout);
              d2 = evaluateAt (handleDismissAlert s2 (place_id p)) (u2, tdis');
              s3 = evaluateAt d2 (u3, tback)
          in alertsFor (place_id p) (activeAlerts s2) = [mkAlert p tin]
             \<and> alertsFor (place_id p) (activeAlerts d2) = []
             \<and> alertsFor (place_id p) (activeAlerts s3) = [mkAlert p tback])"
proof -
  let ?i = "place_id p"
  define s1 where "s1 = evaluateAt st (u1, tin)"
  define s2 where "s2 = evaluateAt s1 (u2, tout)"
  define s3 where "s3 = evaluateAt s2 (u3, tback)"
  define c1 where "c1 = handleDismissAlert s1 ?i"
  define d1 where "d1 = evaluateAt c1 (u1, tdis)"
  define s2' where "s2' = evaluateAt d1 (u2, tout)"
  define s3' where "s3' = evaluateAt s2' (u3, tback)"
  define c2 where "c2 = handleDismissAlert s2 ?i"
  define d2 where "d2 = evaluateAt c2 (u2, tdis')"
  define s3'' where "s3'' = evaluateAt d2 (u3, tback)"
  have none: "alertsFor ?i (activeAlerts st) = []"
    using assms(5) by (simp add: isAlertActive_alertsFor)
  have f1: "fires st u1 tin p"
    using assms by (simp add: fires_def)
  note e1 = evaluateAt_place[OF assms(1,2), of "(u1, tin)", folded s1_def]
  have a1: "alertsFor ?i (activeAlerts s1) = [mkAlert p tin]" "?i \<in> alertedPlaceIds s1"
    using e1(1,2) f1 none assms(4) by simp_all
  have sn1: "snoozedPlaceIds s1 = snoozedPlaceIds st"
    by (simp add: s1_def evaluateAt_cells)
  \<comment> \<open>no user action\<close>
  note e2 = evaluateAt_place[OF e1(3,4), of "(u2, tout)", folded s2_def]
  have nf2: "\<not> fires s1 u2 tout p" using assms(7) by (simp add: fires_def)
  have l2: "leaves s1 u2 p" using assms(3,7) a1(2) by (simp add: leaves_def)
  have a2: "alertsFor ?i (activeAlerts s2) = [mkAlert p tin]" "?i \<notin> alertedPlaceIds s2"
    using e2(1,2) nf2 l2 a1 by simp_all
  have sn2: "snoozedPlaceIds s2 = snoozedPlaceIds st"
    using sn1 by (simp add: s2_def evaluateAt_cells)
  note e3 = evaluateAt_place[OF e2(3,4), of "(u3, tback)", folded s3_def]
  have nf3: "\<not> fires s2 u3 tback p"
    using a2(1) by (simp add: fires_def isAlertActive_alertsFor)
  have a3: "alertsFor ?i (activeAlerts s3) = [mkAlert p tin]"
    using e3(1) nf3 a2 by simp
  have "activeAlerts s3 = activeAlerts st @ createdOver st [(u1, tin), (u2, tout), (u3, tback)]"
    using foldl_evaluateAt_alerts[of st "[(u1, tin), (u2, tout), (u3, tback)]"]
    by (simp add: s3_def s2_def s1_def)
  moreover from this a3 none
  have "alertsFor ?i (createdOver st [(u1, tin), (u2, tout), (u3, tback)]) = [mkAlert p tin]"
    by simp
  ultimately have new: "\<exists>new. activeAlerts s3 = activeAlerts st @ new
                   \<and> alertsFor ?i new = [mkAlert p tin]"
    by blast
  \<comment> \<open>dismissed before the exit\<close>
  have cc1: "distinct (placeIds c1)" "p \<in> set (places c1)"
    using e1(3,4) by (simp_all add: c1_def handleDismissAlert_cells)
  have k1: "alertsFor ?i (activeAlerts c1) = []" "?i \<in> alertedPlaceIds c1"
    "snoozedPlaceIds c1 = snoozedPlaceIds st"
    using a1(2) sn1 by (simp_all add: c1_def handleDismissAlert_cells)
  note g1 = evaluateAt_place[OF cc1, of "(u1, tdis)", folded d1_def]
  have "\<not> fires c1 u1 tdis p" using k1(2) by (simp add: fires_def)
  moreover have "\<not> leaves c1 u1 p" using assms(6) by (simp add: leaves_def)
  ultimately have b1: "alertsFor ?i (activeAlerts d1) = []" "?i \<in> alertedPlaceIds d1"
    using g1(1,2) k1 by simp_all
  have snd1: "snoozedPlaceIds d1 = snoozedPlaceIds st"
    using k1(3) by (simp add: d1_def evaluateAt_cells)
  note g2 = evaluateAt_place[OF g1(3,4), of "(u2, tout)", folded s2'_def]
  have "\<not> fires d1 u2 tout p" using assms(7) by (simp add: fires_def)
  moreover have "leaves d1 u2 p" using assms(3,7) b1(2) by (simp add: leaves_def)
  ultimately have b2: "alertsFor ?i (activeAlerts s2') = []" "?i \<notin> alertedPlaceIds s2'"
    using g2(1,2) b1 by simp_all
  have sn2': "snoozedPlaceIds s2' = snoozedPlaceIds st"
    using snd1 by (simp add: s2'_def evaluateAt_cells)
  note g3 = evaluateAt_place[OF g2(3,4), of "(u3, tback)", folded s3'_def]
  have "fires s2' u3 tback p"
    using assms(3,8,10) b2 sn2' by (simp add: fires_def isAlertActive_alertsFor)
  then have b3: "alertsFor ?i (activeAlerts s3') = [mkAlert p tback]"
    using g3(1) b2 by simp
  \<comment> \<open>dismissed after the exit\<close>
  have cc2: "distinct (placeIds c2)" "p \<in> set (places c2)"
    using e2(3,4) by (simp_all add: c2_def handleDismissAlert_cells)
  have k2: "alertsFor ?i (activeAlerts c2) = []" "?i \<notin> alertedPlaceIds c2"
    "snoozedPlaceIds c2 = snoozedPlaceIds st"
    using a2(2) sn2 by (simp_all add: c2_def handleDismissAlert_cells)
  note h2 = evaluateAt_place[OF cc2, of "(u2, tdis')", folded d2_def]
  have "\<not> fires c2 u2 tdis' p" using assms(7) by (simp add: fires_def)
  then have c2': "alertsFor ?i (activeAlerts d2) = []" "?i \<notin> alertedPlaceIds d2"
    using h2(1,2) k2 by simp_all
  have snd2: "snoozedPlaceIds d2 = snoozedPlaceIds st"
    using k2(3) by (simp add: d2_def evaluateAt_cells)
  note h3 = evaluateAt_place[OF h2(3,4), of "(u3, tback)", folded s3''_def]
  have "fires d2 u3 tback p"
    using assms(3,8,10) c2' snd2 by (simp add: fires_def isAlertActive_alertsFor)
  then have c3: "alertsFor ?i (activeAlerts s3'') = [mkAlert p tback]"
    using h3(1) c2' by simp
  show ?thesis
    unfolding Let_def
    using a1(1) a2 a3 new b1(1) b2(1) b3 c2'(1) c3
    unfolding s1_def s2_def s3_def c1_def d1_def s2'_def s3'_def c2_def d2_def s3''_def
    by blast
qed


theorem reentry_after_exit_witness:
  "distinct (placeIds exampleState) \<and> examplePlace \<in> set (places exampleState)
   \<and> \<not> isCompleted examplePlace
   \<and> place_id examplePlace \<notin> alertedPlaceIds exampleState
   \<and> \<not> isAlertActive (activeAlerts exampleState) (place_id examplePlace)
   \<and> calculateDistance \<lparr>lat = 0, lng = 1\<rparr> (location examplePlace) \<le> radius examplePlace
   \<and> calculateDistance \<lparr>lat = 0, lng = 0\<rparr> (location examplePlace) > radius examplePlace
   \<and> \<not> isSnoozed (snoozedPlaceIds exampleState) (place_id examplePlace) 2000
   \<and> \<not> isSnoozed (snoozedPlaceIds exampleState) (place_id examplePlace) 4000
   \<and> alertsFor ''1000'' (activeAlerts
        (evaluateAt (evaluateAt (evaluateAt exampleState (\<lparr>lat = 0, lng = 1\<rparr>, 2000))
           (\<lparr>lat = 0, lng = 0\<rparr>, 3000)) (\<lparr>lat = 0, lng = 1\<rparr>, 4000)))
      = [mkAlert examplePlace 2000]
   \<and> alertsFor ''1000'' (activeAlerts
        (evaluateAt (evaluateAt (evaluateAt
           (handleDismissAlert (evaluateAt exampleState (\<lparr>lat = 0, lng = 1\<rparr>, 2000)) ''1000'')
           (\<lparr>lat = 0, lng = 1\<rparr>, 2500)) (\<lparr>lat = 0, lng = 0\<rparr>, 3000)) (\<lparr>lat = 0, lng = 1\<rparr>, 4000)))
      = [mkAlert examplePlace 4000]"
proof -
  let ?in = "\<lparr>lat = 0, lng = 1\<rparr> :: coordinate"
  let ?out = "\<lparr>lat = 0, lng = 0\<rparr> :: coordinate"
  have h1: "distinct (placeIds exampleState)"
    by (simp add: exampleState_def placeIds_def)
  have h2: "examplePlace \<in> set (places exampleState)"
    by (simp add: exampleState_def)
  have h3: "\<not> isCompleted examplePlace"
    by (simp add: examplePlace_def)
  have h4: "place_id examplePlace \<notin> alertedPlaceIds exampleState"
    by (simp add: exampleState_def initial_state_def)
  have h5: "\<not> isAlertActive (activeAlerts exampleState) (place_id examplePlace)"
    by (simp add: exampleState_def initial_state_def isAlertActive_def)
  have h6: "calculateDistance ?in (location examplePlace) \<le> radius examplePlace"
    by (rule example_inside)
  have h7: "calculateDistance ?out (location examplePlace) > radius examplePlace"
    using example_outside by simp
  have h8: "\<not> isSnoozed (snoozedPlaceIds exampleState) (place_id examplePlace) t" for t
    by (simp add: exampleState_def initial_state_def isSnoozed_def)
  have i: "place_id examplePlace = ''1000''" by (simp add: examplePlace_def)
  from reentry_after_exit[OF h1 h2 h3 h4 h5 h6 h7 h6 h8[of 2000] h8[of 4000], where tout = 3000 and tdis = 2500]
  show ?thesis
    using h1 h2 h3 h4 h5 h6 h7 h8 unfolding Let_def i by simp
qed


text \<open>The claim as stated (two alerts with no user action in between) fails: the user enters
  the example place, leaves it by one degree of longitude and comes back; the list holds
  one alert, the one of the first entry.\<close>

theorem reentry_two_alerts_counterexample:
  "calculateDistance \<lparr>lat = 0, lng = 1\<rparr> (location examplePlace) \<le> radius examplePlace
   \<and> calculateDistance \<lparr>lat = 0, lng = 0\<rparr> (location examplePlace) > radius examplePlace
   \<and> activeAlerts exampleState = []
   \<and> activeAlerts (evaluateAt exampleState (\<lparr>lat = 0, lng = 1\<rparr>, 2000)) =
        [\<lparr>placeId = ''1000'', message = ''You are near Cafe!'', timestamp = 2000\<rparr>]
   \<and> activeAlerts (foldl evaluateAt exampleState
        [(\<lparr>lat = 0, lng = 1\<rparr>, 2000), (\<lparr>lat = 0, lng = 0\<rparr>, 3000), (\<lparr>lat = 0, lng = 1\<rparr>, 4000)])
      = [\<lparr>placeId = ''1000'', message = ''You are near Cafe!'', timestamp = 2000\<rparr>]
   \<and> length (activeAlerts (foldl evaluateAt exampleState
        [(\<lparr>lat = 0, lng = 1\<rparr>, 2000), (\<lparr>lat = 0, lng = 0\<rparr>, 3000), (\<lparr>lat = 0, lng = 1\<rparr>, 4000)]))
      \<noteq> 2"
proof -
  have out: "\<not> calculateDistance \<lparr>lat = 0, lng = 0\<rparr> \<lparr>lat = 0, lng = 1\<rparr> \<le> 200"
    by (rule equator_degree_outside)
  have "activeAlerts (foldl evaluateAt exampleState
        [(\<lparr>lat = 0, lng = 1\<rparr>, 2000), (\<lparr>lat = 0, lng = 0\<rparr>, 3000), (\<lparr>lat = 0, lng = 1\<rparr>, 4000)])
      = [\<lparr>placeId = ''1000'', message = ''You are near Cafe!'', timestamp = 2000\<rparr>]"
    using out
    by (simp add: evaluateAt_def positionUpdate_def proximityCheck_def checkPlace_def
        exampleState_def examplePlace_def initial_state_def calculateDistance_self
        PROXIMITY_THRESHOLD_METERS_def isSnoozed_def isAlertActive_def mkAlert_def Let_def)
  moreover have "activeAlerts (evaluateAt exampleState (\<lparr>lat = 0, lng = 1\<rparr>, 2000)) =
        [\<lparr>placeId = ''1000'', message = ''You are near Cafe!'', timestamp = 2000\<rparr>]"
    by (simp add: evaluateAt_def positionUpdate_def proximityCheck_def checkPlace_def
        exampleState_def examplePlace_def initial_state_def calculateDistance_self
        PROXIMITY_THRESHOLD_METERS_def isSnoozed_def isAlertActive_def mkAlert_def Let_def)
  moreover have "activeAlerts exampleState = []"
    by (simp add: exampleState_def initial_state_def)
  ultimately show ?thesis
    using example_inside example_outside by simp
qed

subsection \<open>Snooze\<close>

text \<open>
  Claim C3. Snoozing the alert of a place at time \<open>T\<close> records the expiry \<open>T + 300000\<close> for
  the place, removes its alerts from the active-alerts list (and no others) and removes
  the place from the alerted-this-entry set. Evaluations with the user inside the radius
  at times strictly before the expiry create no alert for the place; after any number of
  them, an evaluation with the user inside at a time at or after the expiry creates a new
  alert for the place (which is still in the collection and not completed).
\<close>

theorem snooze_suppresses_then_expires:
  assumes "p \<in> set (places st)" and "\<not> isCompleted p"
  shows "snoozedPlaceIds (handleSnoozeAlert st (place_id p) T) (place_id p) = Some (T + 300000)
       \<and> alertsFor (place_id p) (activeAlerts (handleSnoozeAlert st (place_id p) T)) = []
       \<and> filter (\<lambda>a. placeId a \<noteq> place_id p) (activeAlerts (handleSnoozeAlert st (place_id p) T))
           = filter (\<lambda>a. placeId a \<noteq> place_id p) (activeAlerts st)
       \<and> place_id p \<notin> alertedPlaceIds (handleSnoozeAlert st (place_id p) T)
       \<and> (\<forall>uns. (\<forall>un \<in> set uns.
                     calculateDistance (fst un) (location p) \<le> radius p \<and> snd un < T + 300000) \<longrightarrow>
             alertsFor (place_id p)
               (activeAlerts (foldl evaluateAt (handleSnoozeAlert st (place_id p) T) uns)) = [])
       \<and> (\<forall>uns u t. (\<forall>un \<in> set uns.
                     calculateDistance (fst un) (location p) \<le> radius p \<and> snd un < T + 300000)
                   \<and> calculateDistance u (location p) \<le> radius p \<and> T + 300000 \<le> t \<longrightarrow>
             (\<exists>new. activeAlerts
                       (evaluateAt (foldl evaluateAt (handleSnoozeAlert st (place_id p) T) uns) (u, t))
                     = activeAlerts (foldl evaluateAt (handleSnoozeAlert st (place_id p) T) uns) @ new
                   \<and> mkAlert p t \<in> set new))"
proof -
  let ?i = "place_id p"
  let ?s = "handleSnoozeAlert st ?i T"
  have q: "snoozedQuiet ?s ?i (T + 300000)" by (rule handleSnoozeAlert_quiet)
  have pl: "places ?s = places st" by (simp add: handleSnoozeAlert_def)
  have quiet: "snoozedQuiet (foldl evaluateAt ?s uns) ?i (T + 300000)"
    if "\<forall>un \<in> set uns. calculateDistance (fst un) (location p) \<le> radius p \<and> snd un < T + 300000"
    for uns
    using q that by (intro snoozedQuiet_foldl) auto
  have later: "\<exists>new. activeAlerts (evaluateAt (foldl evaluateAt ?s uns) (u, t))
                     = activeAlerts (foldl evaluateAt ?s uns) @ new \<and> mkAlert p t \<in> set new"
    if "(\<forall>un \<in> set uns. calculateDistance (fst un) (location p) \<le> radius p \<and> snd un < T + 300000)
         \<and> calculateDistance u (location p) \<le> radius p \<and> T + 300000 \<le> t"
    for uns u t
  proof -
    from that have "snoozedQuiet (foldl evaluateAt ?s uns) ?i (T + 300000)"
      using quiet by blast
    moreover have "p \<in> set (places (foldl evaluateAt ?s uns))"
      using assms(1) pl by simp
    ultimately show ?thesis
      using that assms(2) by (intro snoozedQuiet_expired[where i = ?i and e = "T + 300000"]) auto
  qed
  have "filter (\<lambda>a. placeId a \<noteq> ?i) (activeAlerts ?s) = filter (\<lambda>a. placeId a \<noteq> ?i) (activeAlerts st)"
    by (simp add: handleSnoozeAlert_def)
  with q quiet later show ?thesis
    unfolding snoozedQuiet_def by blast
qed


theorem snooze_suppresses_then_expires_witness:
  "examplePlace \<in> set (places (evaluateAt exampleState (\<lparr>lat = 0, lng = 1\<rparr>, 2000)))
   \<and> \<not> isCompleted examplePlace
   \<and> activeAlerts (evaluateAt exampleState (\<lparr>lat = 0, lng = 1\<rparr>, 2000)) =
        [\<lparr>placeId = ''1000'', message = ''You are near Cafe!'', timestamp = 2000\<rparr>]
   \<and> snoozedPlaceIds
        (handleSnoozeAlert (evaluateAt exampleState (\<lparr>lat = 0, lng = 1\<rparr>, 2000)) ''1000'' 5000)
        ''1000'' = Some 305000
   \<and> activeAlerts
        (handleSnoozeAlert (evaluateAt exampleState (\<lparr>lat = 0, lng = 1\<rparr>, 2000)) ''1000'' 5000) = []
   \<and> ''1000'' \<notin> alertedPlaceIds
        (handleSnoozeAlert (evaluateAt exampleState (\<lparr>lat = 0, lng = 1\<rparr>, 2000)) ''1000'' 5000)
   \<and> calculateDistance \<lparr>lat = 0, lng = 1\<rparr> (location examplePlace) \<le> radius examplePlace
   \<and> (245000::nat) < 5000 + 300000 \<and> (5000::nat) + 300000 \<le> 365000
   \<and> activeAlerts
        (evaluateAt
          (handleSnoozeAlert (evaluateAt exampleState (\<lparr>lat = 0, lng = 1\<rparr>, 2000)) ''1000'' 5000)
          (\<lparr>lat = 0, lng = 1\<rparr>, 245000)) = []
   \<and> activeAlerts
        (evaluateAt
          (evaluateAt
            (handleSnoozeAlert (evaluateAt exampleState (\<lparr>lat = 0, lng = 1\<rparr>, 2000)) ''1000'' 5000)
            (\<lparr>lat = 0, lng = 1\<rparr>, 245000))
          (\<lparr>lat = 0, lng = 1\<rparr>, 365000)) =
        [\<lparr>placeId = ''1000'', message = ''You are near Cafe!'', timestamp = 365000\<rparr>]"
proof -
  let ?in = "\<lparr>lat = 0, lng = 1\<rparr> :: coordinate"
  let ?s0 = "evaluateAt exampleState (?in, 2000)"
  have h1: "examplePlace \<in> set (places ?s0)"
    by (simp add: exampleState_def)
  have h2: "\<not> isCompleted examplePlace"
    by (simp add: examplePlace_def)
  have i: "place_id examplePlace = ''1000''" by (simp add: examplePlace_def)
  note sn = snooze_suppresses_then_expires[OF h1 h2, of 5000, unfolded i]
  have e0: "activeAlerts ?s0 =
        [\<lparr>placeId = ''1000'', message = ''You are near Cafe!'', timestamp = 2000\<rparr>]"
    by (simp add: evaluateAt_def positionUpdate_def proximityCheck_def checkPlace_def
        exampleState_def examplePlace_def initial_state_def calculateDistance_self
        PROXIMITY_THRESHOLD_METERS_def isSnoozed_def isAlertActive_def mkAlert_def Let_def)
  have e1: "activeAlerts (handleSnoozeAlert ?s0 ''1000'' 5000) = []"
    using e0 by (simp add: handleSnoozeAlert_def)
  have e2: "activeAlerts (evaluateAt (handleSnoozeAlert ?s0 ''1000'' 5000) (?in, 245000)) = []"
    by (simp add: evaluateAt_def positionUpdate_def proximityCheck_def checkPlace_def
        handleSnoozeAlert_def SNOOZE_DURATION_def
        exampleState_def examplePlace_def initial_state_def calculateDistance_self
        PROXIMITY_THRESHOLD_METERS_def isSnoozed_def isAlertActive_def mkAlert_def Let_def)
  have e3: "activeAlerts
        (evaluateAt (evaluateAt (handleSnoozeAlert ?s0 ''1000'' 5000) (?in, 245000)) (?in, 365000)) =
        [\<lparr>placeId = ''1000'', message = ''You are near Cafe!'', timestamp = 365000\<rparr>]"
    by (simp add: evaluateAt_def positionUpdate_def proximityCheck_def checkPlace_def
        handleSnoozeAlert_def SNOOZE_DURATION_def
        exampleState_def examplePlace_def initial_state_def calculateDistance_self
        PROXIMITY_THRESHOLD_METERS_def isSnoozed_def isAlertActive_def mkAlert_def Let_def)
  from sn have "snoozedPlaceIds (handleSnoozeAlert ?s0 ''1000'' 5000) ''1000'' = Some 305000"
    and "''1000'' \<notin> alertedPlaceIds (handleSnoozeAlert ?s0 ''1000'' 5000)"
    by simp_all
  with h1 h2 e0 e1 e2 e3 example_inside show ?thesis by simp
qed

subsection \<open>Deleting a place\<close>

text \<open>
  Claim C10. Deleting a place by identifier removes the places with that identifier and
  no other, clears the selection when the deleted place was selected, and changes nothing
  else: the active-alerts list, the alerted-this-entry set and the snooze-expiry map are
  untouched. An active alert of the deleted place is therefore still in the list after
  the deletion, and it stays there along every run of enabled events that neither
  dismisses nor snoozes it (nor creates a place under the deleted identifier again).
\<close>

theorem handleDeleteTask_frame:
  "places (handleDeleteTask st i) = filter (\<lambda>p. place_id p \<noteq> i) (places st)
   \<and> selectedPlaceId (handleDeleteTask st i) =
       (if selectedPlaceId st = Some i then None else selectedPlaceId st)
   \<and> activeAlerts (handleDeleteTask st i) = activeAlerts st
   \<and> alertedPlaceIds (handleDeleteTask st i) = alertedPlaceIds st
   \<and> snoozedPlaceIds (handleDeleteTask st i) = snoozedPlaceIds st
   \<and> (handleDeleteTask st i)\<lparr>places := places st, selectedPlaceId := selectedPlaceId st\<rparr> = st
   \<and> (\<forall>a \<in> set (activeAlerts st). placeId a = i \<longrightarrow>
         a \<in> set (activeAlerts (handleDeleteTask st i))
         \<and> (\<forall>es s'. run (handleDeleteTask st i) es = Some s'
               \<and> (\<forall>e \<in> set es. keepsAlert i e) \<longrightarrow> a \<in> set (activeAlerts s')))"
proof -
  have cells: "places (handleDeleteTask st i) = filter (\<lambda>p. place_id p \<noteq> i) (places st)"
    "selectedPlaceId (handleDeleteTask st i) =
       (if selectedPlaceId st = Some i then None else selectedPlaceId st)"
    "activeAlerts (handleDeleteTask st i) = activeAlerts st"
    "alertedPlaceIds (handleDeleteTask st i) = alertedPlaceIds st"
    "snoozedPlaceIds (handleDeleteTask st i) = snoozedPlaceIds st"
    "(handleDeleteTask st i)\<lparr>places := places st, selectedPlaceId := selectedPlaceId st\<rparr> = st"
    by (simp_all add: handleDeleteTask_def Let_def)
  have stays: "a \<in> set (activeAlerts (handleDeleteTask st i))
         \<and> (\<forall>es s'. run (handleDeleteTask st i) es = Some s'
               \<and> (\<forall>e \<in> set es. keepsAlert i e) \<longrightarrow> a \<in> set (activeAlerts s'))"
    if "a \<in> set (activeAlerts st)" "placeId a = i" for a
  proof -
    have o: "orphanAlert a (handleDeleteTask st i)"
      using that by (auto simp: orphanAlert_def cells placeIds_def)
    have "a \<in> set (activeAlerts s')"
      if "run (handleDeleteTask st i) es = Some s'" "\<forall>e \<in> set es. keepsAlert i e" for es s'
      using run_orphanAlert[OF o that(1)] that(2) \<open>placeId a = i\<close> by (simp add: orphanAlert_def)
    with o show ?thesis by (auto simp: orphanAlert_def)
  qed
  from cells stays show ?thesis by blast
qed


theorem handleDeleteTask_frame_witness:
  "activeAlerts (evaluateAt exampleState (\<lparr>lat = 0, lng = 1\<rparr>, 2000)) =
      [\<lparr>placeId = ''1000'', message = ''You are near Cafe!'', timestamp = 2000\<rparr>]
   \<and> places (handleDeleteTask (evaluateAt exampleState (\<lparr>lat = 0, lng = 1\<rparr>, 2000)) ''1000'') = []
   \<and> selectedPlaceId (handleDeleteTask (evaluateAt exampleState (\<lparr>lat = 0, lng = 1\<rparr>, 2000)) ''1000'')
       = None
   \<and> activeAlerts (handleDeleteTask (evaluateAt exampleState (\<lparr>lat = 0, lng = 1\<rparr>, 2000)) ''1000'') =
      [\<lparr>placeId = ''1000'', message = ''You are near Cafe!'', timestamp = 2000\<rparr>]
   \<and> list_all (keepsAlert ''1000'')
        [Position \<lparr>lat = 0, lng = 0\<rparr>, ProximityEffect 3000, MapClick \<lparr>lat = 2, lng = 2\<rparr>,
         ConfirmDraft 4000 4000, PlaceMove ''4000'' \<lparr>lat = 0, lng = 0\<rparr>, ProximityEffect 5000]
   \<and> run (handleDeleteTask (evaluateAt exampleState (\<lparr>lat = 0, lng = 1\<rparr>, 2000)) ''1000'')
        [Position \<lparr>lat = 0, lng = 0\<rparr>, ProximityEffect 3000, MapClick \<lparr>lat = 2, lng = 2\<rparr>,
         ConfirmDraft 4000 4000, PlaceMove ''4000'' \<lparr>lat = 0, lng = 0\<rparr>, ProximityEffect 5000] \<noteq> None
   \<and> \<lparr>placeId = ''1000'', message = ''You are near Cafe!'', timestamp = 2000\<rparr> \<in>
       set (activeAlerts (the (run
         (handleDeleteTask (evaluateAt exampleState (\<lparr>lat = 0, lng = 1\<rparr>, 2000)) ''1000'')
         [Position \<lparr>lat = 0, lng = 0\<rparr>, ProximityEffect 3000, MapClick \<lparr>lat = 2, lng = 2\<rparr>,
          ConfirmDraft 4000 4000, PlaceMove ''4000'' \<lparr>lat = 0, lng = 0\<rparr>, ProximityEffect 5000])))"
proof -
  let ?a = "\<lparr>placeId = ''1000'', message = ''You are near Cafe!'', timestamp = 2000\<rparr>"
  let ?s0 = "evaluateAt exampleState (\<lparr>lat = 0, lng = 1\<rparr>, 2000)"
  let ?es = "[Position \<lparr>lat = 0, lng = 0\<rparr>, ProximityEffect 3000, MapClick \<lparr>lat = 2, lng = 2\<rparr>,
         ConfirmDraft 4000 4000, PlaceMove ''4000'' \<lparr>lat = 0, lng = 0\<rparr>, ProximityEffect 5000]"
  have t4: "toString 4000 = ''4000''"
    by (simp add: toString.simps digitChar_def)
  have e0: "activeAlerts ?s0 = [?a]"
    by (simp add: evaluateAt_def positionUpdate_def proximityCheck_def checkPlace_def
        exampleState_def examplePlace_def initial_state_def calculateDistance_self
        PROXIMITY_THRESHOLD_METERS_def isSnoozed_def isAlertActive_def mkAlert_def Let_def)
  have p0: "places ?s0 = [examplePlace]" "selectedPlaceId ?s0 = Some ''1000''"
    by (simp_all add: evaluateAt_def proximityCheck_cells positionUpdate_def exampleState_def)
  have k: "list_all (keepsAlert ''1000'') ?es"
    by (simp add: t4)
  have d: "places (handleDeleteTask ?s0 ''1000'') = []"
    "selectedPlaceId (handleDeleteTask ?s0 ''1000'') = None"
    using p0 by (simp_all add: handleDeleteTask_def Let_def examplePlace_def)
  note fr = handleDeleteTask_frame[of ?s0 "''1000''"]
  have en: "run (handleDeleteTask ?s0 ''1000'') ?es \<noteq> None"
    using d fr
    by (simp add: placeIds_def positionUpdate_def proximityCheck_cells handleMapClick_def
        handleConfirmDraft_def handleAddPlace_def clearDraft_def orElse_def t4 Let_def)
  then obtain s' where s': "run (handleDeleteTask ?s0 ''1000'') ?es = Some s'"
    by auto
  from fr e0 have stay: "run (handleDeleteTask ?s0 ''1000'') es = Some t \<Longrightarrow>
      \<forall>e \<in> set es. keepsAlert ''1000'' e \<Longrightarrow> ?a \<in> set (activeAlerts t)" for es t
    by simp
  have "?a \<in> set (activeAlerts s')"
    using stay[OF s'] k by (simp add: list_all_iff)
  with s' e0 d fr k show ?thesis by simp
qed

subsection \<open>Confirming a draft\<close>

text \<open>
  Claim C5. Confirming an open draft puts one new place in front of the collection. Its
  name is the trimmed name buffer, or exactly \<open>New Place\<close> when the buffer is empty or all
  white space; its notes are the trimmed note buffer: a buffer made of white space, a core
  without white space at either end, and white space again yields the core. White space
  is that of \<open>trim\<close>, the no-break space included. The three draft buffers are cleared (the
  place is created on the state with cleared buffers), the new place is selected, and a
  confirmation repeated immediately changes nothing.
\<close>

theorem handleConfirmDraft_creates:
  assumes "draftLocation st = Some loc"
  shows "places (handleConfirmDraft st tId tC) =
           \<lparr>place_id = toString tId, name = orElse (trim (draftName st)) ''New Place'',
             location = loc, category = Generic, radius = 200,
             place_notes = Some (trim (draftNote st)), isCompleted = False,
             createdAt = tC, listId = None\<rparr> # places st
       \<and> ((\<forall>c \<in> set (draftName st). isWhiteSpace c) \<longrightarrow>
             name (hd (places (handleConfirmDraft st tId tC))) = ''New Place'')
       \<and> (\<forall>l n r l' m r'.
             draftName st = l @ n @ r \<and> draftNote st = l' @ m @ r'
             \<and> (\<forall>c \<in> set (l @ r @ l' @ r'). isWhiteSpace c)
             \<and> n \<noteq> [] \<and> \<not> isWhiteSpace (hd n) \<and> \<not> isWhiteSpace (last n)
             \<and> (m = [] \<or> (\<not> isWhiteSpace (hd m) \<and> \<not> isWhiteSpace (last m))) \<longrightarrow>
             name (hd (places (handleConfirmDraft st tId tC))) = n
             \<and> place_notes (hd (places (handleConfirmDraft st tId tC))) = Some m)
       \<and> draftLocation (handleConfirmDraft st tId tC) = None
       \<and> draftName (handleConfirmDraft st tId tC) = []
       \<and> draftNote (handleConfirmDraft st tId tC) = []
       \<and> selectedPlaceId (handleConfirmDraft st tId tC) = Some (toString tId)
       \<and> handleConfirmDraft st tId tC =
           (snd (handleAddPlace (clearDraft st) loc (orElse (trim (draftName st)) ''New Place'')
                   (Some (trim (draftNote st))) None tId tC))
             \<lparr>selectedPlaceId := Some (toString tId)\<rparr>
       \<and> (\<forall>t1 t2. handleConfirmDraft (handleConfirmDraft st tId tC) t1 t2 =
             handleConfirmDraft st tId tC)"
proof -
  let ?s = "handleConfirmDraft st tId tC"
  note eq = handleConfirmDraft_places[OF assms, of tId tC]
  have pl: "places ?s =
           \<lparr>place_id = toString tId, name = orElse (trim (draftName st)) ''New Place'',
             location = loc, category = Generic, radius = 200,
             place_notes = Some (trim (draftNote st)), isCompleted = False,
             createdAt = tC, listId = None\<rparr> # places st"
    by (simp add: eq)
  have blank: "name (hd (places ?s)) = ''New Place''" if "\<forall>c \<in> set (draftName st). isWhiteSpace c"
    using trim_blank[OF that] by (simp add: pl orElse_def)
  have trimmed: "name (hd (places ?s)) = n \<and> place_notes (hd (places ?s)) = Some m"
    if "draftName st = l @ n @ r \<and> draftNote st = l' @ m @ r'
             \<and> (\<forall>c \<in> set (l @ r @ l' @ r'). isWhiteSpace c)
             \<and> n \<noteq> [] \<and> \<not> isWhiteSpace (hd n) \<and> \<not> isWhiteSpace (last n)
             \<and> (m = [] \<or> (\<not> isWhiteSpace (hd m) \<and> \<not> isWhiteSpace (last m)))"
    for l n r l' m r'
  proof -
    from that have "trim (draftName st) = n"
      using trim_surround[of l r n] by simp
    moreover from that have "trim (draftNote st) = m"
      using trim_surround[of l' r' m] by simp
    ultimately show ?thesis using that by (simp add: pl orElse_def)
  qed
  have cleared: "draftLocation ?s = None" "draftName ?s = []" "draftNote ?s = []"
    "selectedPlaceId ?s = Some (toString tId)"
    by (simp_all add: eq clearDraft_def)
  have order: "?s = (snd (handleAddPlace (clearDraft st) loc (orElse (trim (draftName st)) ''New Place'')
                   (Some (trim (draftNote st))) None tId tC))
             \<lparr>selectedPlaceId := Some (toString tId)\<rparr>"
    using assms
    by (simp add: handleConfirmDraft_def handleAddPlace_def clearDraft_def orElse_def
        toString_nonempty Let_def)
  have again: "handleConfirmDraft ?s t1 t2 = ?s" for t1 t2
    using cleared(1) by (simp add: handleConfirmDraft_def)
  from pl blank trimmed cleared order again show ?thesis by blast
qed


theorem handleConfirmDraft_creates_witness:
  "draftLocation (initial_state\<lparr>draftLocation := Some \<lparr>lat = 1, lng = 2\<rparr>, draftName := [CHR 0xA0, CHR '' '', CHR 0x09]\<rparr>)
     = Some \<lparr>lat = 1, lng = 2\<rparr>
   \<and> list_all isWhiteSpace [CHR 0xA0, CHR '' '', CHR 0x09]
   \<and> name (hd (places (handleConfirmDraft
        (initial_state\<lparr>draftLocation := Some \<lparr>lat = 1, lng = 2\<rparr>, draftName := [CHR 0xA0, CHR '' '', CHR 0x09]\<rparr>) 1000 1001)))
      = ''New Place''
   \<and> places (handleConfirmDraft
        (initial_state\<lparr>draftLocation := Some \<lparr>lat = 1, lng = 2\<rparr>, draftName := (CHR 0xA0 # '' My Cafe ''),
           draftNote := [CHR '' '', CHR ''t'', CHR ''e'', CHR ''a'', CHR 0xA0]\<rparr>) 1000 1001)
      = [\<lparr>place_id = ''1000'', name = ''My Cafe'', location = \<lparr>lat = 1, lng = 2\<rparr>,
          category = Generic, radius = 200, place_notes = Some ''tea'', isCompleted = False,
          createdAt = 1001, listId = None\<rparr>]
   \<and> draftLocation (handleConfirmDraft
        (initial_state\<lparr>draftLocation := Some \<lparr>lat = 1, lng = 2\<rparr>, draftName := (CHR 0xA0 # '' My Cafe ''),
           draftNote := [CHR '' '', CHR ''t'', CHR ''e'', CHR ''a'', CHR 0xA0]\<rparr>) 1000 1001) = None
   \<and> places (handleConfirmDraft (handleConfirmDraft
        (initial_state\<lparr>draftLocation := Some \<lparr>lat = 1, lng = 2\<rparr>, draftName := (CHR 0xA0 # '' My Cafe ''),
           draftNote := [CHR '' '', CHR ''t'', CHR ''e'', CHR ''a'', CHR 0xA0]\<rparr>) 1000 1001) 1002 1003)
      = [\<lparr>place_id = ''1000'', name = ''My Cafe'', location = \<lparr>lat = 1, lng = 2\<rparr>,
          category = Generic, radius = 200, place_notes = Some ''tea'', isCompleted = False,
          createdAt = 1001, listId = None\<rparr>]"
proof -
  let ?b = "initial_state\<lparr>draftLocation := Some \<lparr>lat = 1, lng = 2\<rparr>, draftName := [CHR 0xA0, CHR '' '', CHR 0x09]\<rparr>"
  let ?c = "initial_state\<lparr>draftLocation := Some \<lparr>lat = 1, lng = 2\<rparr>, draftName := (CHR 0xA0 # '' My Cafe ''),
           draftNote := [CHR '' '', CHR ''t'', CHR ''e'', CHR ''a'', CHR 0xA0]\<rparr>"
  have hb: "draftLocation ?b = Some \<lparr>lat = 1, lng = 2\<rparr>" by simp
  have hc: "draftLocation ?c = Some \<lparr>lat = 1, lng = 2\<rparr>" by simp
  have ws: "list_all isWhiteSpace [CHR 0xA0, CHR '' '', CHR 0x09]" by (simp add: isWhiteSpace_def)
  have tn: "trim (CHR 0xA0 # '' My Cafe '') = ''My Cafe''" "trim [CHR '' '', CHR ''t'', CHR ''e'', CHR ''a'', CHR 0xA0] = ''tea''"
    by (simp_all add: trim_def isWhiteSpace_def)
  note b = handleConfirmDraft_creates[OF hb, of 1000 1001]
  note c = handleConfirmDraft_creates[OF hc, of 1000 1001]
  have pre: "\<forall>c \<in> set (draftName ?b). isWhiteSpace c"
    by (simp add: isWhiteSpace_def)
  have 1: "name (hd (places (handleConfirmDraft ?b 1000 1001))) = ''New Place''"
    using b[THEN conjunct2, THEN conjunct1] pre by blast
  have 2: "places (handleConfirmDraft ?c 1000 1001)
      = [\<lparr>place_id = ''1000'', name = ''My Cafe'', location = \<lparr>lat = 1, lng = 2\<rparr>,
          category = Generic, radius = 200, place_notes = Some ''tea'', isCompleted = False,
          createdAt = 1001, listId = None\<rparr>]"
    using c[THEN conjunct1]
    by (simp add: tn orElse_def toString_1000 initial_state_def INITIAL_TASKS_def)
  have 3: "draftLocation (handleConfirmDraft ?c 1000 1001) = None"
    using c by blast
  have 4: "handleConfirmDraft (handleConfirmDraft ?c 1000 1001) 1002 1003 =
           handleConfirmDraft ?c 1000 1001"
    using c by blast
  show ?thesis
    using hb ws 1 2 3 by (simp only: 4)
qed

subsection \<open>AI enrichment\<close>

text \<open>
  Claim C6. \<open>handleAddPlace\<close> puts the new place \<open>new\<close> in front of the collection, with
  category Generic and notes equal to the user's notes (the empty string when none are
  given, never absent). When the suggestion arrives for the place as created: with
  non-empty user notes the place gets the suggested category and keeps its notes; with
  empty or missing user notes it gets the suggested category and the suggested note. When
  the call fails the suggestion is the fallback object (Generic, empty note), so the
  place's category is Generic and its notes stay what they were, the empty string when
  the user gave none. Places with another identifier are unchanged.
\<close>

theorem enrichment_keeps_user_notes:
  fixes st :: app_state and loc :: coordinate and nm :: string
    and userNotes givenId :: "string option" and tId tC :: nat
  defines "i \<equiv> fst (handleAddPlace st loc nm userNotes givenId tId tC)"
    and "st1 \<equiv> snd (handleAddPlace st loc nm userNotes givenId tId tC)"
    and "new \<equiv> hd (places (snd (handleAddPlace st loc nm userNotes givenId tId tC)))"
  shows "places st1 = new # places st
       \<and> place_id new = i \<and> category new = Generic
       \<and> place_notes new = Some (initialNoteOf userNotes)
       \<and> (\<forall>n e. userNotes = Some n \<and> n \<noteq> [] \<longrightarrow>
             hd (places (enrich True (Parsed e) st1 i userNotes)) =
               new\<lparr>category := enh_category e\<rparr>
             \<and> place_notes (hd (places (enrich True (Parsed e) st1 i userNotes))) = Some n)
       \<and> (\<forall>e. userNotes = None \<or> userNotes = Some [] \<longrightarrow>
             hd (places (enrich True (Parsed e) st1 i userNotes)) =
               new\<lparr>category := enh_category e, place_notes := Some (suggestedNote e)\<rparr>)
       \<and> suggestCategoryAndNotes CallFails = Some \<lparr>enh_category = Generic, suggestedNote = []\<rparr>
       \<and> (userNotes = None \<or> userNotes = Some [] \<longrightarrow>
             hd (places (enrich True CallFails st1 i userNotes)) =
               new\<lparr>category := Generic, place_notes := Some []\<rparr>)
       \<and> category (hd (places (enrich True CallFails st1 i userNotes))) = Generic
       \<and> place_notes (hd (places (enrich True CallFails st1 i userNotes))) =
           Some (initialNoteOf userNotes)
       \<and> (i \<notin> set (placeIds st) \<longrightarrow>
             (\<forall>r. tl (places (enrich True r st1 i userNotes)) = places st))"
proof -
  have s1: "st1 = st\<lparr>places := new # places st\<rparr>"
    by (simp add: st1_def new_def handleAddPlace_def Let_def)
  have basics: "places st1 = new # places st" "place_id new = i" "category new = Generic"
    "place_notes new = Some (initialNoteOf userNotes)"
    unfolding st1_def new_def i_def by (simp_all add: handleAddPlace_def Let_def)
  have hdE: "hd (places (enrich True r st1 i userNotes)) =
      (case suggestCategoryAndNotes r of None \<Rightarrow> new
       | Some e \<Rightarrow> new\<lparr>category := enh_category e,
            place_notes := Some (if initialNoteOf userNotes \<noteq> [] then initialNoteOf userNotes
                                 else suggestedNote e)\<rparr>)" for r
    using basics(2)
    by (cases "suggestCategoryAndNotes r")
      (simp_all add: enrich_def s1 applyEnhancement_head, simp add: applyEnhancement_def)
  have kept: "hd (places (enrich True (Parsed e) st1 i userNotes)) = new\<lparr>category := enh_category e\<rparr>
             \<and> place_notes (hd (places (enrich True (Parsed e) st1 i userNotes))) = Some n"
    if "userNotes = Some n \<and> n \<noteq> []" for n e
  proof -
    have "hd (places (enrich True (Parsed e) st1 i userNotes)) =
            new\<lparr>category := enh_category e, place_notes := Some n\<rparr>"
      using that hdE[of "Parsed e"] by (simp add: suggestCategoryAndNotes_def initialNoteOf_simps)
    moreover have "new\<lparr>category := enh_category e, place_notes := Some n\<rparr> =
            new\<lparr>category := enh_category e\<rparr>"
      using basics(4) that by (cases new) (simp add: initialNoteOf_simps)
    ultimately show ?thesis using basics(4) that by (simp add: initialNoteOf_simps)
  qed
  have filled: "hd (places (enrich True (Parsed e) st1 i userNotes)) =
               new\<lparr>category := enh_category e, place_notes := Some (suggestedNote e)\<rparr>"
    if "userNotes = None \<or> userNotes = Some []" for e
    using that hdE[of "Parsed e"] by (auto simp: suggestCategoryAndNotes_def initialNoteOf_simps)
  have fb: "suggestCategoryAndNotes CallFails = Some \<lparr>enh_category = Generic, suggestedNote = []\<rparr>"
    by (simp add: suggestCategoryAndNotes_def)
  have failed: "hd (places (enrich True CallFails st1 i userNotes)) =
               new\<lparr>category := Generic, place_notes := Some []\<rparr>"
    if "userNotes = None \<or> userNotes = Some []"
    using that hdE[of CallFails] by (auto simp: fb initialNoteOf_simps)
  have failed2: "category (hd (places (enrich True CallFails st1 i userNotes))) = Generic"
    "place_notes (hd (places (enrich True CallFails st1 i userNotes))) =
           Some (initialNoteOf userNotes)"
    by (simp_all add: hdE fb)
  have others: "tl (places (enrich True r st1 i userNotes)) = places st"
    if "i \<notin> set (placeIds st)" for r
    using that basics(2)
    by (cases "suggestCategoryAndNotes r")
      (simp_all add: enrich_def s1 applyEnhancement_head map_other_ids placeIds_def,
        simp add: applyEnhancement_def)
  from basics kept filled fb failed failed2 others show ?thesis by blast
qed


theorem enrichment_keeps_user_notes_witness:
  "places (enrich True (Parsed \<lparr>enh_category = Food, suggestedNote = ''Great coffee''\<rparr>)
       (snd (handleAddPlace initial_state \<lparr>lat = 1, lng = 2\<rparr> ''Cafe'' (Some ''tea'') None 1000 1001))
       ''1000'' (Some ''tea''))
     = [\<lparr>place_id = ''1000'', name = ''Cafe'', location = \<lparr>lat = 1, lng = 2\<rparr>, category = Food,
         radius = 200, place_notes = Some ''tea'', isCompleted = False, createdAt = 1001,
         listId = None\<rparr>]
   \<and> places (enrich True (Parsed \<lparr>enh_category = Food, suggestedNote = ''Great coffee''\<rparr>)
       (snd (handleAddPlace initial_state \<lparr>lat = 1, lng = 2\<rparr> ''Cafe'' None None 1000 1001))
       ''1000'' None)
     = [\<lparr>place_id = ''1000'', name = ''Cafe'', location = \<lparr>lat = 1, lng = 2\<rparr>, category = Food,
         radius = 200, place_notes = Some ''Great coffee'', isCompleted = False, createdAt = 1001,
         listId = None\<rparr>]
   \<and> places (enrich True CallFails
       (snd (handleAddPlace initial_state \<lparr>lat = 1, lng = 2\<rparr> ''Cafe'' (Some []) None 1000 1001))
       ''1000'' (Some []))
     = [\<lparr>place_id = ''1000'', name = ''Cafe'', location = \<lparr>lat = 1, lng = 2\<rparr>, category = Generic,
         radius = 200, place_notes = Some [], isCompleted = False, createdAt = 1001,
         listId = None\<rparr>]
   \<and> fst (handleAddPlace initial_state \<lparr>lat = 1, lng = 2\<rparr> ''Cafe'' (Some ''tea'') None 1000 1001)
       = ''1000''
   \<and> ''1000'' \<notin> set (placeIds initial_state)"
proof -
  let ?l = "\<lparr>lat = 1, lng = 2\<rparr> :: coordinate"
  let ?e = "\<lparr>enh_category = Food, suggestedNote = ''Great coffee''\<rparr>"
  have add: "handleAddPlace initial_state ?l ''Cafe'' un None 1000 1001 =
      (''1000'', initial_state\<lparr>places :=
         [\<lparr>place_id = ''1000'', name = ''Cafe'', location = ?l, category = Generic,
           radius = 200, place_notes = Some (initialNoteOf un), isCompleted = False,
           createdAt = 1001, listId = None\<rparr>]\<rparr>)" for un
    by (simp add: handleAddPlace_def orElse_def toString_1000 initial_state_def INITIAL_TASKS_def
        PROXIMITY_THRESHOLD_METERS_def Let_def)
  have fresh: "''1000'' \<notin> set (placeIds initial_state)"
    by (simp add: placeIds_def initial_state_def INITIAL_TASKS_def)
  note c = enrichment_keeps_user_notes[of initial_state ?l "''Cafe''" "Some []" None 1000 1001,
      unfolded add fst_conv snd_conv]
  have 1: "places (enrich True (Parsed ?e)
       (snd (handleAddPlace initial_state ?l ''Cafe'' (Some ''tea'') None 1000 1001))
       ''1000'' (Some ''tea''))
     = [\<lparr>place_id = ''1000'', name = ''Cafe'', location = ?l, category = Food,
         radius = 200, place_notes = Some ''tea'', isCompleted = False, createdAt = 1001,
         listId = None\<rparr>]"
    by (simp add: add enrich_def applyEnhancement_def suggestCategoryAndNotes_def
        initialNoteOf_simps)
  have 2: "places (enrich True (Parsed ?e)
       (snd (handleAddPlace initial_state ?l ''Cafe'' None None 1000 1001)) ''1000'' None)
     = [\<lparr>place_id = ''1000'', name = ''Cafe'', location = ?l, category = Food,
         radius = 200, place_notes = Some ''Great coffee'', isCompleted = False, createdAt = 1001,
         listId = None\<rparr>]"
    by (simp add: add enrich_def applyEnhancement_def suggestCategoryAndNotes_def
        initialNoteOf_simps)
  have "hd (places (enrich True CallFails
          (initial_state\<lparr>places :=
         [\<lparr>place_id = ''1000'', name = ''Cafe'', location = ?l, category = Generic,
           radius = 200, place_notes = Some (initialNoteOf (Some [])), isCompleted = False,
           createdAt = 1001, listId = None\<rparr>]\<rparr>) ''1000'' (Some []))) =
        \<lparr>place_id = ''1000'', name = ''Cafe'', location = ?l, category = Generic,
         radius = 200, place_notes = Some [], isCompleted = False, createdAt = 1001,
         listId = None\<rparr>"
    using c by simp
  moreover have "tl (places (enrich True CallFails
          (initial_state\<lparr>places :=
         [\<lparr>place_id = ''1000'', name = ''Cafe'', location = ?l, category = Generic,
           radius = 200, place_notes = Some (initialNoteOf (Some [])), isCompleted = False,
           createdAt = 1001, listId = None\<rparr>]\<rparr>) ''1000'' (Some []))) = []"
    using c fresh by (simp add: initial_state_def INITIAL_TASKS_def)
  moreover have "places (enrich True CallFails
          (initial_state\<lparr>places :=
         [\<lparr>place_id = ''1000'', name = ''Cafe'', location = ?l, category = Generic,
           radius = 200, place_notes = Some (initialNoteOf (Some [])), isCompleted = False,
           createdAt = 1001, listId = None\<rparr>]\<rparr>) ''1000'' (Some [])) \<noteq> []"
    by (simp add: enrich_def applyEnhancement_def suggestCategoryAndNotes_def)
  ultimately have 3: "places (enrich True CallFails
       (snd (handleAddPlace initial_state ?l ''Cafe'' (Some []) None 1000 1001)) ''1000'' (Some []))
     = [\<lparr>place_id = ''1000'', name = ''Cafe'', location = ?l, category = Generic,
         radius = 200, place_notes = Some [], isCompleted = False, createdAt = 1001,
         listId = None\<rparr>]"
    unfolding add snd_conv by (metis list.collapse)
  show ?thesis using 1 2 3 fresh by (simp add: add)
qed

subsection \<open>Cleaning the search query\<close>

text \<open>
  Claim C7. The search cleans the query with the regular expression and trims it:
  \<open>pizza near me\<close> becomes \<open>pizza\<close>, and \<open>nearby\<close> becomes the empty string. When the cleaned
  query is empty the result list is empty and no request is issued; otherwise exactly one
  request is issued, for the cleaned query. The replacement does not strip every filler
  phrase that stands as a whole word: a match consumes the white space after it, so a
  filler phrase that follows another directly is not preceded by white space any more and
  stays. \<open>closest nearby pharmacy\<close> is cleaned to \<open>nearby pharmacy\<close>, which is what the
  provider is asked for.
\<close>

theorem searchPlaces_query_cleaning:
  "cleanQuery ''pizza near me'' = ''pizza''
   \<and> cleanQuery ''Pizza NEAR ME'' = ''Pizza''
   \<and> cleanQuery ''nearby'' = []
   \<and> searchPlaces env ''nearby'' u = \<lparr>outcome = Inr [], requests = [], logged = []\<rparr>
   \<and> requests (searchPlaces env query u) =
       (if cleanQuery query = [] then [] else [searchUrl env (cleanQuery query) u])
   \<and> outcome (searchPlaces env query u) =
       (if cleanQuery query = [] then Inr [] else outcome (searchPlaces env query u))
   \<and> cleanQuery ''closest nearby pharmacy'' = ''nearby pharmacy''
   \<and> requests (searchPlaces env ''closest nearby pharmacy'' u) =
       [searchUrl env ''nearby pharmacy'' u]"
  using searchPlaces_empty[of query env u] searchPlaces_empty[of "''nearby''" env u]
  by (simp add: cleanQuery_examples searchPlaces_requests)

subsection \<open>Search failures\<close>

text \<open>
  Claim C8. The search is meant to turn every failure of the request into the empty result
  list. It does so when the response is not successful, and when the promise of \<open>fetch\<close>
  rejects or reading the body throws with a value other than \<open>null\<close> and \<open>undefined\<close>: a
  network failure, a cancellation with the default reason. Every such value ends in the
  empty list and a log entry, which for an \<open>AbortError\<close> is the plain message. It does not
  when the value is \<open>null\<close> or \<open>undefined\<close>, as after a cancellation by
  \<open>controller.abort(null)\<close>: the \<open>catch\<close> block reads the name of the caught value before
  anything else, that read throws, and the promise returned by the search rejects with a
  \<open>TypeError\<close>.
\<close>

theorem searchPlaces_failure_outcomes:
  "(\<forall>nm. fetch env (searchUrl env (cleanQuery query) u) = Rejects (JsObject nm) \<longrightarrow>
        outcome (searchPlaces env query u) = Inr [])
   \<and> (\<forall>b. fetch env (searchUrl env (cleanQuery query) u) = Responds False b \<longrightarrow>
        outcome (searchPlaces env query u) = Inr [])
   \<and> (\<forall>nm. fetch env (searchUrl env (cleanQuery query) u) = Responds True (Inl (JsObject nm)) \<longrightarrow>
        outcome (searchPlaces env query u) = Inr [])
   \<and> (\<forall>nm. fst (searchPlaces_try env query u) = Inl (JsObject nm) \<longrightarrow>
        outcome (searchPlaces env query u) = Inr []
        \<and> logged (searchPlaces env query u) =
            [if nm = Some ''AbortError'' then LogAborted else LogError (JsObject nm)])
   \<and> (cleanQuery query \<noteq> [] \<and>
        fetch env (searchUrl env (cleanQuery query) u) = Rejects (errorNamed ''AbortError'') \<longrightarrow>
        searchPlaces env query u =
          \<lparr>outcome = Inr [], requests = [searchUrl env (cleanQuery query) u],
           logged = [LogAborted]\<rparr>)
   \<and> (\<forall>e. cleanQuery query \<noteq> [] \<and> (e = JsNull \<or> e = JsUndefined) \<and>
        fetch env (searchUrl env (cleanQuery query) u) = Rejects e \<longrightarrow>
        searchPlaces env query u =
          \<lparr>outcome = Inl (errorNamed ''TypeError''),
           requests = [searchUrl env (cleanQuery query) u], logged = []\<rparr>)"
proof -
  have thrown: "outcome (searchPlaces env query u) = Inr []
        \<and> logged (searchPlaces env query u) =
            [if nm = Some ''AbortError'' then LogAborted else LogError (JsObject nm)]"
    if "fst (searchPlaces_try env query u) = Inl (JsObject nm)" for nm
    using searchPlaces_throw[OF that] by (simp add: searchPlaces_catch_object)
  have fail: "outcome (searchPlaces env query u) = Inr []"
    if "(\<exists>nm. fetch env (searchUrl env (cleanQuery query) u) = Rejects (JsObject nm))
        \<or> (\<exists>b. fetch env (searchUrl env (cleanQuery query) u) = Responds False b)
        \<or> (\<exists>nm. fetch env (searchUrl env (cleanQuery query) u) = Responds True (Inl (JsObject nm)))"
  proof (cases "cleanQuery query = []")
    case True
    then show ?thesis by (simp add: searchPlaces_empty)
  next
    case False
    from that searchPlaces_try_failures[OF False, of env u]
    obtain nm where "fst (searchPlaces_try env query u) = Inl (JsObject nm)"
      unfolding errorNamed_def by blast
    then show ?thesis using thrown by blast
  qed
  have aborted: "searchPlaces env query u =
          \<lparr>outcome = Inr [], requests = [searchUrl env (cleanQuery query) u],
           logged = [LogAborted]\<rparr>"
    if "cleanQuery query \<noteq> [] \<and>
        fetch env (searchUrl env (cleanQuery query) u) = Rejects (errorNamed ''AbortError'')"
    using that
    by (simp add: searchPlaces_def searchPlaces_try_def searchPlaces_catch_def errorNamed_def
        Let_def)
  have nullish: "searchPlaces env query u =
          \<lparr>outcome = Inl (errorNamed ''TypeError''),
           requests = [searchUrl env (cleanQuery query) u], logged = []\<rparr>"
    if "cleanQuery query \<noteq> [] \<and> (e = JsNull \<or> e = JsUndefined) \<and>
        fetch env (searchUrl env (cleanQuery query) u) = Rejects e" for e
    using that
    by (auto simp: searchPlaces_def searchPlaces_try_def searchPlaces_catch_def Let_def)
  from thrown fail aborted nullish show ?thesis by blast
qed

theorem searchPlaces_failure_outcomes_witness:
  "cleanQuery ''pizza near me'' \<noteq> []
   \<and> fetch nullAbortingEnv (searchUrl nullAbortingEnv (cleanQuery ''pizza near me'') None)
      = Rejects JsNull
   \<and> searchPlaces nullAbortingEnv ''pizza near me'' None =
       \<lparr>outcome = Inl (JsObject (Some ''TypeError'')),
        requests = [''https://photon.komoot.io/api/?q=pizza&limit=10&lang=en''], logged = []\<rparr>
   \<and> fetch abortingEnv (searchUrl abortingEnv (cleanQuery ''pizza near me'') None)
      = Rejects (JsObject (Some ''AbortError''))
   \<and> searchPlaces abortingEnv ''pizza near me'' None =
       \<lparr>outcome = Inr [],
        requests = [''https://photon.komoot.io/api/?q=pizza&limit=10&lang=en''],
        logged = [LogAborted]\<rparr>
   \<and> fetch refusingEnv (searchUrl refusingEnv (cleanQuery ''pizza near me'') None)
      = Responds False (Inr [])
   \<and> outcome (searchPlaces refusingEnv ''pizza near me'' None) = Inr []
   \<and> logged (searchPlaces refusingEnv ''pizza near me'' None)
      = [LogError (JsObject (Some ''Error''))]"
proof -
  have c: "cleanQuery ''pizza near me'' = ''pizza''" by (rule cleanQuery_examples)
  have f0: "fetch nullAbortingEnv (searchUrl nullAbortingEnv (cleanQuery ''pizza near me'') None)
      = Rejects JsNull"
    by (simp add: nullAbortingEnv_def abortingEnv_def)
  have f1: "fetch abortingEnv (searchUrl abortingEnv (cleanQuery ''pizza near me'') None)
      = Rejects (errorNamed ''AbortError'')"
    by (simp add: abortingEnv_def)
  have f2: "fetch refusingEnv (searchUrl refusingEnv (cleanQuery ''pizza near me'') None)
      = Responds False (Inr [])"
    by (simp add: refusingEnv_def abortingEnv_def)
  have url: "searchUrl abortingEnv ''pizza'' None =
      ''https://photon.komoot.io/api/?q=pizza&limit=10&lang=en''"
    "searchUrl nullAbortingEnv ''pizza'' None =
      ''https://photon.komoot.io/api/?q=pizza&limit=10&lang=en''"
    by (simp_all add: searchUrl_def nullAbortingEnv_def abortingEnv_def)
  note n = searchPlaces_failure_outcomes[of nullAbortingEnv "''pizza near me''" None]
  note a = searchPlaces_failure_outcomes[of abortingEnv "''pizza near me''" None]
  note r = searchPlaces_failure_outcomes[of refusingEnv "''pizza near me''" None]
  have 0: "searchPlaces nullAbortingEnv ''pizza near me'' None =
       \<lparr>outcome = Inl (JsObject (Some ''TypeError'')),
        requests = [''https://photon.komoot.io/api/?q=pizza&limit=10&lang=en''], logged = []\<rparr>"
    using n f0 c url by (simp add: errorNamed_def)
  have 1: "searchPlaces abortingEnv ''pizza near me'' None =
       \<lparr>outcome = Inr [],
        requests = [''https://photon.komoot.io/api/?q=pizza&limit=10&lang=en''],
        logged = [LogAborted]\<rparr>"
    using a f1 c url by simp
  have 2: "outcome (searchPlaces refusingEnv ''pizza near me'' None) = Inr []"
    using r f2 by blast
  have 3: "logged (searchPlaces refusingEnv ''pizza near me'' None)
      = [LogError (JsObject (Some ''Error''))]"
    using f2 c
    by (simp add: searchPlaces_def searchPlaces_try_def searchPlaces_catch_def errorNamed_def
        Let_def)
  from f0 f1 f2 c 0 1 2 3 show ?thesis by (simp add: errorNamed_def)
qed

end
